theory Spec2Isabelle
  imports Main
begin

section \<open>Strings\<close>

text \<open>
  A Go string is a sequence of bytes; it is modelled as a \<open>string\<close> (a list of 8-bit
  characters). The functions of Go's \<open>strings\<close> and \<open>strconv\<close> packages that the
  scheduler calls are written out below on bytes.

  \<open>spaceWidth s\<close> is the number of bytes of the white-space character that starts
  \<open>s\<close>, or 0 when \<open>s\<close> does not start with one. White space is what
  \<open>unicode.IsSpace\<close> accepts: tab, line feed, vertical tab, form feed, carriage return,
  space, U+0085, U+00A0, U+1680, U+2000 to U+200A, U+2028, U+2029, U+202F, U+205F and
  U+3000, each in its UTF-8 encoding.
\<close>

definition spaceWidth :: "string \<Rightarrow> nat" where
  "spaceWidth s =
     (case map of_char s :: nat list of
        [] \<Rightarrow> 0
      | a # r \<Rightarrow>
          if a = 9 \<or> a = 10 \<or> a = 11 \<or> a = 12 \<or> a = 13 \<or> a = 32 then 1
          else (case r of
                  [] \<Rightarrow> 0
                | b # r2 \<Rightarrow>
                    if a = 194 \<and> (b = 133 \<or> b = 160) then 2
                    else (case r2 of
                            [] \<Rightarrow> 0
                          | c # _ \<Rightarrow>
                              if a = 225 \<and> b = 154 \<and> c = 128 then 3
                              else if a = 226 \<and> b = 128 \<and>
                                      ((128 \<le> c \<and> c \<le> 138) \<or> c = 168 \<or> c = 169 \<or> c = 175)
                                   then 3
                              else if a = 226 \<and> b = 129 \<and> c = 159 then 3
                              else if a = 227 \<and> b = 128 \<and> c = 128 then 3
                              else 0)))"

text \<open>The width of the white-space character that ends \<open>s\<close>, or 0.\<close>

definition spaceSuffix :: "string \<Rightarrow> nat" where
  "spaceSuffix s =
     (let n = length s in
      if 1 \<le> n \<and> spaceWidth (drop (n - 1) s) = 1 then 1
      else if 2 \<le> n \<and> spaceWidth (drop (n - 2) s) = 2 then 2
      else if 3 \<le> n \<and> spaceWidth (drop (n - 3) s) = 3 then 3
      else 0)"

lemma spaceWidth_le: "spaceWidth s \<le> length s"
proof (cases s)
  case Nil
  then show ?thesis by (simp add: spaceWidth_def)
next
  case s1: (Cons a r)
  show ?thesis
  proof (cases r)
    case Nil
    with s1 show ?thesis by (simp add: spaceWidth_def)
  next
    case s2: (Cons b r2)
    show ?thesis
    proof (cases r2)
      case Nil
      with s1 s2 show ?thesis by (simp add: spaceWidth_def)
    next
      case (Cons c r3)
      with s1 s2 show ?thesis by (simp add: spaceWidth_def)
    qed
  qed
qed

lemma spaceSuffix_le: "spaceSuffix s \<le> length s"
  by (simp add: spaceSuffix_def Let_def)

function TrimLeft :: "string \<Rightarrow> string" where
  "TrimLeft s = (if spaceWidth s = 0 then s else TrimLeft (drop (spaceWidth s) s))"
  by pat_completeness auto
termination
proof (relation "measure length")
  show "wf (measure length)" by simp
next
  fix s :: string
  assume "spaceWidth s \<noteq> 0"
  moreover have "spaceWidth s \<le> length s" by (rule spaceWidth_le)
  ultimately show "(drop (spaceWidth s) s, s) \<in> measure length" by simp
qed

function TrimRight :: "string \<Rightarrow> string" where
  "TrimRight s = (if spaceSuffix s = 0 then s else TrimRight (take (length s - spaceSuffix s) s))"
  by pat_completeness auto
termination
proof (relation "measure length")
  show "wf (measure length)" by simp
next
  fix s :: string
  assume "spaceSuffix s \<noteq> 0"
  moreover have "spaceSuffix s \<le> length s" by (rule spaceSuffix_le)
  ultimately show "(take (length s - spaceSuffix s) s, s) \<in> measure length" by simp
qed

declare TrimLeft.simps [simp del] TrimRight.simps [simp del]

text \<open>\<open>strings.TrimSpace\<close>: leading and trailing white space removed.\<close>

definition TrimSpace :: "string \<Rightarrow> string" where
  "TrimSpace s = TrimRight (TrimLeft s)"

text \<open>
  \<open>strings.Fields\<close>: the maximal runs of bytes between white space, in order; the
  first argument is the field being read.
\<close>

function FieldsFrom :: "string \<Rightarrow> string \<Rightarrow> string list" where
  "FieldsFrom cur s =
     (case s of
        [] \<Rightarrow> (if cur = [] then [] else [cur])
      | c # r \<Rightarrow>
          if spaceWidth s = 0 then FieldsFrom (cur @ [c]) r
          else (if cur = [] then [] else [cur]) @ FieldsFrom [] (drop (spaceWidth s) s))"
  by pat_completeness auto
termination
proof (relation "measure (\<lambda>(cur, s). length s)")
  show "wf (measure (\<lambda>(cur :: string, s :: string). length s))" by simp
next
  fix cur s :: string and c r
  assume "s = c # r"
  then show "((cur @ [c], r), (cur, s)) \<in> measure (\<lambda>(cur, s). length s)" by simp
next
  fix cur s :: string and c r
  assume "s = c # r" and "spaceWidth s \<noteq> 0"
  then show "(([], drop (spaceWidth s) s), (cur, s)) \<in> measure (\<lambda>(cur, s). length s)"
    by simp
qed

declare FieldsFrom.simps [simp del]

definition Fields :: "string \<Rightarrow> string list" where
  "Fields s = FieldsFrom [] s"

text \<open>\<open>strings.Split\<close> at a one-byte separator; the first argument is the piece being read.\<close>

fun SplitFrom :: "string \<Rightarrow> char \<Rightarrow> string \<Rightarrow> string list" where
  "SplitFrom cur sep [] = [cur]"
| "SplitFrom cur sep (c # r) =
     (if c = sep then cur # SplitFrom [] sep r else SplitFrom (cur @ [c]) sep r)"

definition Split :: "string \<Rightarrow> char \<Rightarrow> string list" where
  "Split s sep = SplitFrom [] sep s"

definition HasPrefix :: "string \<Rightarrow> string \<Rightarrow> bool" where
  "HasPrefix s p = (take (length p) s = p)"

definition TrimPrefix :: "string \<Rightarrow> string \<Rightarrow> string" where
  "TrimPrefix s p = (if HasPrefix s p then drop (length p) s else s)"

section \<open>Machine integers\<close>

text \<open>
  Go's \<open>int\<close> (on a 64-bit platform), \<open>int64\<close> and \<open>time.Duration\<close> are 64-bit two's
  complement integers. They are modelled as \<open>int\<close>; \<open>wrap64\<close> is the value an
  arithmetic result has once it is stored in 64 bits.
\<close>

definition minInt64 :: int where
  "minInt64 = - 9223372036854775808"

definition maxInt64 :: int where
  "maxInt64 = 9223372036854775807"

definition wrap64 :: "int \<Rightarrow> int" where
  "wrap64 x = (x + 9223372036854775808) mod 18446744073709551616 - 9223372036854775808"

definition isDigit :: "char \<Rightarrow> bool" where
  "isDigit c = (48 \<le> (of_char c :: nat) \<and> (of_char c :: nat) \<le> 57)"

definition digitValue :: "char \<Rightarrow> int" where
  "digitValue c = int (of_char c) - 48"

text \<open>
  \<open>strconv.Atoi\<close>: an optional sign, then one or more decimal digits, and a value that
  fits 64 bits; \<open>None\<close> is any error (syntax or range).
\<close>

definition Atoi :: "string \<Rightarrow> int option" where
  "Atoi s =
     (let neg = (s \<noteq> [] \<and> hd s = CHR ''-'');
          ds = (if s \<noteq> [] \<and> (hd s = CHR ''-'' \<or> hd s = CHR ''+'') then tl s else s)
      in if ds = [] \<or> \<not> list_all isDigit ds then None
         else (let n = foldl (\<lambda>a c. a * 10 + digitValue c) 0 ds;
                   v = (if neg then - n else n)
               in if v < minInt64 \<or> maxInt64 < v then None else Some v))"

section \<open>Cron expressions\<close>

record valueSet =
  vs_min :: int
  vs_max :: int
  vs_all :: bool
  vs_val :: "int set"

text \<open>
  The fields of a \<open>cronExpr\<close> are pointers to value sets; \<open>None\<close> is the nil pointer,
  which \<open>has\<close> answers with false.
\<close>

record cronExpr =
  minute :: "valueSet option"
  hour :: "valueSet option"
  dom :: "valueSet option"
  month :: "valueSet option"
  dow :: "valueSet option"
  domAny :: bool
  dowAny :: bool

text \<open>
  The errors of the package are values. \<open>StepLoopDiverges\<close> stands for a step loop that
  does not return; \<open>parseCronExpr_returns\<close> below shows that no cron field reaches it.
\<close>

datatype field_error =
    EmptyField
  | InvalidStep string
  | InvalidValue string
  | OutOfRange int int int
  | NoValuesParsed string
  | StepLoopDiverges

datatype error =
    ExpectedFiveFields string
  | FieldError string field_error
  | NoMatchingTime
  | NoScheduleNorInterval
  | RecordNotFound
  | ComputeNext error
  | MissingDefaultModel

definition has :: "valueSet option \<Rightarrow> int \<Rightarrow> bool" where
  "has s v = (case s of None \<Rightarrow> False | Some vs \<Rightarrow> if vs_all vs then True else v \<in> vs_val vs)"

text \<open>
  The step loop \<open>for v := min; v <= max; v += step\<close>. The addition is a 64-bit one, so
  the loop is a partial function: \<open>None\<close> is a loop that runs forever.
\<close>

partial_function (option) stepLoop :: "int \<Rightarrow> int \<Rightarrow> int \<Rightarrow> int set \<Rightarrow> int set option" where
  "stepLoop v mx step vals =
     (if v \<le> mx then stepLoop (wrap64 (v + step)) mx step (insert v vals) else Some vals)"

declare stepLoop.simps [code]

text \<open>
  The loop of \<open>parseField\<close> over the comma-separated parts, with the checks that follow
  it; \<open>tok\<close> is the trimmed field, \<open>out\<close> the value set built so far.
\<close>

fun parseParts :: "string list \<Rightarrow> string \<Rightarrow> int \<Rightarrow> int \<Rightarrow> valueSet \<Rightarrow> field_error + valueSet" where
  "parseParts [] tok mn mx out =
     (let out1 = (if vs_all out then out\<lparr>vs_val := {}\<rparr> else out)
      in if \<not> vs_all out1 \<and> vs_val out1 = {} then Inl (NoValuesParsed tok) else Inr out1)"
| "parseParts (p0 # ps) tok mn mx out =
     (let p = TrimSpace p0 in
      if p = [] then parseParts ps tok mn mx out
      else if p = ''*'' then Inr (out\<lparr>vs_all := True, vs_val := {}\<rparr>)
      else if HasPrefix p ''*/'' then
        (case Atoi (TrimPrefix p ''*/'') of
           None \<Rightarrow> Inl (InvalidStep p)
         | Some step \<Rightarrow>
             if step \<le> 0 then Inl (InvalidStep p)
             else (case stepLoop mn mx step (vs_val out) of
                     None \<Rightarrow> Inl StepLoopDiverges
                   | Some vals \<Rightarrow> parseParts ps tok mn mx (out\<lparr>vs_val := vals\<rparr>)))
      else
        (case Atoi p of
           None \<Rightarrow> Inl (InvalidValue p)
         | Some n \<Rightarrow>
             if n < mn \<or> n > mx then Inl (OutOfRange n mn mx)
             else parseParts ps tok mn mx (out\<lparr>vs_val := insert n (vs_val out)\<rparr>)))"

definition parseField :: "string \<Rightarrow> int \<Rightarrow> int \<Rightarrow> field_error + valueSet" where
  "parseField tok0 mn mx =
     (let tok = TrimSpace tok0 in
      if tok = [] then Inl EmptyField
      else if tok = ''*'' then Inr \<lparr>vs_min = mn, vs_max = mx, vs_all = True, vs_val = {}\<rparr>
      else parseParts (Split tok (CHR '','')) tok mn mx
             \<lparr>vs_min = mn, vs_max = mx, vs_all = False, vs_val = {}\<rparr>)"

definition parseFieldWithAny :: "string \<Rightarrow> int \<Rightarrow> int \<Rightarrow> field_error + (valueSet \<times> bool)" where
  "parseFieldWithAny tok mn mx =
     (case parseField tok mn mx of
        Inl err \<Rightarrow> Inl err
      | Inr vs \<Rightarrow> Inr (vs, TrimSpace tok = ''*''))"

definition parseCronExpr :: "string \<Rightarrow> error + cronExpr" where
  "parseCronExpr expr =
     (case Fields (TrimSpace expr) of
        [f0, f1, f2, f3, f4] \<Rightarrow>
          (case parseField f0 0 59 of
             Inl err \<Rightarrow> Inl (FieldError ''minute'' err)
           | Inr mi \<Rightarrow>
          (case parseField f1 0 23 of
             Inl err \<Rightarrow> Inl (FieldError ''hour'' err)
           | Inr ho \<Rightarrow>
          (case parseFieldWithAny f2 1 31 of
             Inl err \<Rightarrow> Inl (FieldError ''dom'' err)
           | Inr (dm, dmAny) \<Rightarrow>
          (case parseField f3 1 12 of
             Inl err \<Rightarrow> Inl (FieldError ''month'' err)
           | Inr mo \<Rightarrow>
          (case parseFieldWithAny f4 0 6 of
             Inl err \<Rightarrow> Inl (FieldError ''dow'' err)
           | Inr (dw, dwAny) \<Rightarrow>
               Inr \<lparr>minute = Some mi, hour = Some ho, dom = Some dm, month = Some mo,
                    dow = Some dw, domAny = dmAny, dowAny = dwAny\<rparr>)))))
      | _ \<Rightarrow> Inl (ExpectedFiveFields expr))"

section \<open>Instants\<close>

text \<open>
  An instant is a number of seconds since 1970-01-01T00:00:00Z, as the scheduler stores
  it; all evaluation is in UTC. The accessors of \<open>time.Time\<close> that the cron engine reads
  are the fields of the proleptic Gregorian calendar date of the instant. The instants
  the scheduler handles are whole seconds, and the model leaves out that a
  \<open>time.Time\<close> cannot hold more than 64 bits of seconds.
\<close>

type_synonym instant = int

definition Minute :: "instant \<Rightarrow> int" where
  "Minute t = (t mod 3600) div 60"

definition Hour :: "instant \<Rightarrow> int" where
  "Hour t = (t mod 86400) div 3600"

text \<open>Sunday is 0; 1970-01-01 was a Thursday.\<close>

definition Weekday :: "instant \<Rightarrow> int" where
  "Weekday t = (t div 86400 + 4) mod 7"

text \<open>
  The day of the year of an instant, counted from 1 March (day 0), within the 400-year
  cycle that starts on 0000-03-01; from it, the month and the day of the month.
\<close>

definition dayOfCycle :: "instant \<Rightarrow> int" where
  "dayOfCycle t = (t div 86400 + 719468) mod 146097"

definition yearOfCycle :: "instant \<Rightarrow> int" where
  "yearOfCycle t =
     (let d = dayOfCycle t in (d - d div 1460 + d div 36524 - d div 146096) div 365)"

definition dayOfMarchYear :: "instant \<Rightarrow> int" where
  "dayOfMarchYear t =
     (let y = yearOfCycle t in dayOfCycle t - (365 * y + y div 4 - y div 100))"

definition Month :: "instant \<Rightarrow> int" where
  "Month t = (let mp = (5 * dayOfMarchYear t + 2) div 153 in if mp < 10 then mp + 3 else mp - 9)"

definition Day :: "instant \<Rightarrow> int" where
  "Day t = (let d = dayOfMarchYear t in d - (153 * ((5 * d + 2) div 153) + 2) div 5 + 1)"

section \<open>The next fire time of a cron expression\<close>

text \<open>
  The body of the search loop of \<open>cronExpr.next\<close>: true when the loop returns \<open>t\<close>,
  false when it goes on to the next minute.
\<close>

definition matches :: "cronExpr \<Rightarrow> instant \<Rightarrow> bool" where
  "matches e t =
     (if \<not> has (minute e) (Minute t) then False
      else if \<not> has (hour e) (Hour t) then False
      else if \<not> has (month e) (Month t) then False
      else (let domMatch = has (dom e) (Day t);
                dowMatch = has (dow e) (Weekday t)
            in if \<not> domAny e \<and> \<not> dowAny e then
                 (if \<not> (domMatch \<or> dowMatch) then False else True)
               else
                 (if \<not> domAny e \<and> \<not> domMatch then False
                  else if \<not> dowAny e \<and> \<not> dowMatch then False
                  else True)))"

function nextFrom :: "cronExpr \<Rightarrow> instant \<Rightarrow> instant \<Rightarrow> error + instant" where
  "nextFrom e t limit =
     (if t < limit then (if matches e t then Inr t else nextFrom e (t + 60) limit)
      else Inl NoMatchingTime)"
  by pat_completeness auto
termination
  by (relation "measure (\<lambda>(e, t, limit). nat (limit - t))") auto

declare nextFrom.simps [simp del]

text \<open>\<open>after.UTC().Add(time.Minute).Truncate(time.Minute)\<close>\<close>

definition searchStart :: "instant \<Rightarrow> instant" where
  "searchStart after = ((after + 60) div 60) * 60"

definition searchLimit :: "instant \<Rightarrow> instant" where
  "searchLimit after = searchStart after + 366 * 24 * 3600"

definition cronExpr_next :: "cronExpr \<Rightarrow> instant \<Rightarrow> error + instant" where
  "cronExpr_next e after = nextFrom e (searchStart after) (searchLimit after)"

section \<open>Jobs, runs and the store\<close>

record CronJob =
  ID :: string
  Name :: string
  Enabled :: bool
  Schedule :: "string option"
  IntervalSeconds :: "int option"
  Task :: string
  RunOnce :: bool
  NotifyTelegramChatID :: "int option"
  Provider :: "string option"
  Model :: "string option"
  TimeoutSeconds :: "int option"
  OverlapPolicy :: string
  LastRunAt :: "instant option"
  NextRunAt :: "instant option"
  CreatedAt :: instant
  UpdatedAt :: instant

record CronRun =
  ID :: string
  JobID :: string
  JobUpdatedAt :: instant
  Status :: string
  ScheduledFor :: instant
  StartedAt :: "instant option"
  FinishedAt :: "instant option"
  Attempt :: int
  Error :: "string option"
  ResultSummary :: "string option"
  CreatedAt :: instant
  UpdatedAt :: instant

definition StatusQueued :: string where "StatusQueued = ''queued''"
definition StatusRunning :: string where "StatusRunning = ''running''"
definition StatusSuccess :: string where "StatusSuccess = ''succeeded''"
definition StatusFailed :: string where "StatusFailed = ''failed''"
definition StatusCanceled :: string where "StatusCanceled = ''canceled''"
definition StatusTimedOut :: string where "StatusTimedOut = ''timed_out''"
definition StatusSkipped :: string where "StatusSkipped = ''skipped''"

definition overlapForbid :: string where "overlapForbid = ''forbid''"

text \<open>A \<open>time.Duration\<close> is a number of nanoseconds.\<close>

definition Second :: int where "Second = 1000000000"

definition defaultTimeout :: int where "defaultTimeout = 10 * 60 * Second"

text \<open>
  The two tables of the database. Rows are kept in lists; a statement with a
  \<open>WHERE\<close> clause works on every row that satisfies it. Failures of the storage engine
  itself are not modelled: a statement fails only where the code below says so.
\<close>

record Store =
  jobs :: "CronJob list"
  runs :: "CronRun list"

text \<open>\<open>Where("id = ?", id).First(&job)\<close>; \<open>None\<close> is the "record not found" error.\<close>

definition First :: "Store \<Rightarrow> string \<Rightarrow> CronJob option" where
  "First s jobID = find (\<lambda>j. CronJob.ID j = jobID) (jobs s)"

text \<open>
  \<open>Model(&CronJob{}).Where("id = ?", id).Updates(m)\<close>: the assignments \<open>m\<close> are the
  function \<open>upd\<close>. The storage layer also sets \<open>updated_at\<close> of every row it updates
  to the time of its own clock, \<open>stamp\<close>.
\<close>

definition updateJob :: "string \<Rightarrow> (CronJob \<Rightarrow> CronJob) \<Rightarrow> instant \<Rightarrow> Store \<Rightarrow> Store" where
  "updateJob jobID upd stamp s =
     s\<lparr>jobs := map (\<lambda>j. if CronJob.ID j = jobID then (upd j)\<lparr>CronJob.UpdatedAt := stamp\<rparr> else j)
                   (jobs s)\<rparr>"

text \<open>
  \<open>Create(&run)\<close>: the hook \<open>BeforeCreate\<close> gives a run without an id a fresh one,
  \<open>newID\<close>, and the storage layer fills in the two time stamps.
\<close>

definition createRun :: "CronRun \<Rightarrow> string \<Rightarrow> instant \<Rightarrow> Store \<Rightarrow> Store" where
  "createRun run newID stamp s =
     s\<lparr>runs := runs s @
        [run\<lparr>CronRun.ID := (if CronRun.ID run = [] then newID else CronRun.ID run),
              CronRun.CreatedAt := stamp, CronRun.UpdatedAt := stamp\<rparr>]\<rparr>"

text \<open>
  \<open>db.Transaction\<close>: the changes of a body that returns an error are rolled back. The
  body also returns the value it leaves in variables of the enclosing function.
\<close>

definition Transaction :: "(Store \<Rightarrow> (error option \<times> 'a) \<times> Store) \<Rightarrow> Store \<Rightarrow> (error option \<times> 'a) \<times> Store" where
  "Transaction body s =
     (case body s of
        ((Some err, a), _) \<Rightarrow> ((Some err, a), s)
      | ((None, a), s') \<Rightarrow> ((None, a), s'))"

section \<open>The schedule resolver\<close>

text \<open>
  \<open>after.Add(d).Unix()\<close> for an instant of whole seconds and a duration \<open>d\<close> in
  nanoseconds: the seconds of the sum, rounded down.
\<close>

definition AddUnix :: "instant \<Rightarrow> int \<Rightarrow> instant" where
  "AddUnix after d = after + d div Second"

definition nextRunAt :: "CronJob \<Rightarrow> instant \<Rightarrow> error + instant" where
  "nextRunAt job afterUnix =
     (if Schedule job \<noteq> None \<and> TrimSpace (the (Schedule job)) \<noteq> [] then
        (case parseCronExpr (the (Schedule job)) of
           Inl err \<Rightarrow> Inl err
         | Inr expr \<Rightarrow>
             (case cronExpr_next expr afterUnix of
                Inl err \<Rightarrow> Inl err
              | Inr nxt \<Rightarrow> Inr nxt))
      else if IntervalSeconds job \<noteq> None \<and> the (IntervalSeconds job) > 0 then
        Inr (AddUnix afterUnix (wrap64 (the (IntervalSeconds job) * Second)))
      else Inl NoScheduleNorInterval)"

section \<open>The scheduler\<close>

record Config =
  Enabled :: bool
  Concurrency :: int
  Tick :: int
  MaxErrorChars :: int
  MaxSummaryChars :: int

record Scheduler =
  cfg :: Config
  defaultModel :: string

definition DefaultConfig :: Config where
  "DefaultConfig =
     \<lparr>Config.Enabled = False, Concurrency = 1, Tick = 1 * Second, MaxErrorChars = 2000,
      MaxSummaryChars = 1000\<rparr>"

text \<open>
  \<open>New\<close>, without its checks of the database handle and of the task runner, which are
  not values of the model.
\<close>

definition New :: "string \<Rightarrow> Config \<Rightarrow> error + Scheduler" where
  "New dm c =
     (if TrimSpace dm = [] then Inl MissingDefaultModel
      else
        (let c1 = (if Concurrency c \<le> 0 then c\<lparr>Concurrency := 1\<rparr> else c);
             c2 = (if Tick c1 \<le> 0 then c1\<lparr>Tick := 1 * Second\<rparr> else c1);
             c3 = (if MaxErrorChars c2 \<le> 0 then c2\<lparr>MaxErrorChars := 2000\<rparr> else c2);
             c4 = (if MaxSummaryChars c3 \<le> 0 then c3\<lparr>MaxSummaryChars := 1000\<rparr> else c3)
         in Inr \<lparr>cfg = c4, defaultModel = dm\<rparr>))"

subsection \<open>Orphan recovery and start-up\<close>

text \<open>\<open>now\<close> is the scheduler's reading of the clock, \<open>stamp\<close> the storage layer's.\<close>

definition recoverOrphanedRuns :: "instant \<Rightarrow> instant \<Rightarrow> Store \<Rightarrow> Store" where
  "recoverOrphanedRuns now stamp s =
     s\<lparr>runs := map (\<lambda>r. if Status r = StatusRunning
                          then r\<lparr>Status := StatusFailed, FinishedAt := Some now,
                                 Error := Some ''process restarted'',
                                 CronRun.UpdatedAt := stamp\<rparr>
                          else r)
                   (runs s)\<rparr>"

text \<open>One round of the loop of \<open>reconcileNextRunAt\<close>, for the job \<open>job\<close> as it was read.\<close>

definition reconcileJob :: "instant \<Rightarrow> instant \<Rightarrow> Store \<Rightarrow> CronJob \<Rightarrow> Store" where
  "reconcileJob now stamp s job =
     (case nextRunAt job now of
        Inl err \<Rightarrow> updateJob (CronJob.ID job) (\<lambda>j. j\<lparr>CronJob.Enabled := False\<rparr>) stamp s
      | Inr nxt \<Rightarrow>
          if NextRunAt job = None \<or> the (NextRunAt job) < now
          then updateJob (CronJob.ID job) (\<lambda>j. j\<lparr>NextRunAt := Some nxt\<rparr>) stamp s
          else s)"

definition reconcileNextRunAt :: "instant \<Rightarrow> instant \<Rightarrow> Store \<Rightarrow> Store" where
  "reconcileNextRunAt now stamp s =
     foldl (reconcileJob now stamp) s (filter CronJob.Enabled (jobs s))"

text \<open>
  \<open>Start\<close> up to its return: the store it leaves and the goroutines it has started, in
  the order of the \<open>go\<close> statements. A scheduler that is not enabled starts nothing.
  \<open>clock\<close> is the time that \<open>recoverOrphanedRuns\<close> reads, \<open>now\<close> the time that
  \<open>Start\<close> reads for the reconciliation.
\<close>

datatype goroutine = scheduleLoop | workerLoop int

definition Start :: "Scheduler \<Rightarrow> instant \<Rightarrow> instant \<Rightarrow> instant \<Rightarrow> Store \<Rightarrow> Store \<times> goroutine list" where
  "Start sch clock now stamp s =
     (if \<not> Config.Enabled (cfg sch) then (s, [])
      else
        (let s1 = recoverOrphanedRuns clock stamp s;
             s2 = reconcileNextRunAt now stamp s1
         in (s2, scheduleLoop # map workerLoop [1 .. Concurrency (cfg sch)])))"

subsection \<open>The enqueue transaction\<close>

text \<open>
  The body of the transaction of \<open>enqueueJobIfDue\<close>. \<open>lower\<close> is \<open>strings.ToLower\<close>,
  whose Unicode case tables are not part of the repository. The Boolean of the result is
  the variable \<open>queued\<close>.
\<close>

definition enqueueBody :: "(string \<Rightarrow> string) \<Rightarrow> string \<Rightarrow> instant \<Rightarrow> string \<Rightarrow> instant \<Rightarrow> Store \<Rightarrow> (error option \<times> bool) \<times> Store" where
  "enqueueBody lower jobID now newID stamp tx =
     (case First tx jobID of
        None \<Rightarrow> ((Some RecordNotFound, False), tx)
      | Some job \<Rightarrow>
          if \<not> CronJob.Enabled job \<or> NextRunAt job = None then ((None, False), tx)
          else
            (let scheduledFor = the (NextRunAt job) in
             if scheduledFor > now then ((None, False), tx)
             else
               (case (if RunOnce job then
                        Inr (\<lambda>j. j\<lparr>CronJob.Enabled := False, LastRunAt := Some scheduledFor,
                                    NextRunAt := None\<rparr>)
                      else
                        (case nextRunAt job scheduledFor of
                           Inl err \<Rightarrow> Inl err
                         | Inr nxt \<Rightarrow>
                             Inr (\<lambda>j. j\<lparr>LastRunAt := Some scheduledFor,
                                         NextRunAt := Some nxt\<rparr>))) of
                  Inl err \<Rightarrow>
                    ((Some (ComputeNext err), False),
                     updateJob (CronJob.ID job) (\<lambda>j. j\<lparr>CronJob.Enabled := False\<rparr>) stamp tx)
                | Inr updates \<Rightarrow>
                    (let runningCount =
                           int (length (filter (\<lambda>r. JobID r = CronJob.ID job \<and>
                                                     Status r = StatusRunning) (runs tx)));
                         policy0 = lower (TrimSpace (OverlapPolicy job));
                         policy = (if policy0 = [] then overlapForbid else policy0)
                     in if runningCount > 0 \<and> policy = overlapForbid then
                          (let msg = ''overlap_forbid: prior run still running'';
                               run = \<lparr>CronRun.ID = [], JobID = CronJob.ID job,
                                      JobUpdatedAt = CronJob.UpdatedAt job,
                                      Status = StatusSkipped, ScheduledFor = scheduledFor,
                                      StartedAt = None, FinishedAt = None, Attempt = 1,
                                      Error = Some msg, ResultSummary = None,
                                      CronRun.CreatedAt = 0, CronRun.UpdatedAt = 0\<rparr>
                           in ((None, False),
                               updateJob (CronJob.ID job) updates stamp
                                 (createRun run newID stamp tx)))
                        else
                          (let run = \<lparr>CronRun.ID = [], JobID = CronJob.ID job,
                                      JobUpdatedAt = CronJob.UpdatedAt job,
                                      Status = StatusQueued, ScheduledFor = scheduledFor,
                                      StartedAt = None, FinishedAt = None, Attempt = 1,
                                      Error = None, ResultSummary = None,
                                      CronRun.CreatedAt = 0, CronRun.UpdatedAt = 0\<rparr>
                           in ((None, True),
                               updateJob (CronJob.ID job) updates stamp
                                 (createRun run newID stamp tx)))))))"

text \<open>
  \<open>enqueueJobIfDue\<close>: the result of the call and the store after it. A result
  \<open>Inr True\<close> also wakes the workers.
\<close>

definition enqueueJobIfDue :: "(string \<Rightarrow> string) \<Rightarrow> string \<Rightarrow> instant \<Rightarrow> string \<Rightarrow> instant \<Rightarrow> Store \<Rightarrow> (error + bool) \<times> Store" where
  "enqueueJobIfDue lower jobID now newID stamp s =
     (case Transaction (enqueueBody lower jobID now newID stamp) s of
        ((Some err, queued), s') \<Rightarrow> (Inl err, s')
      | ((None, queued), s') \<Rightarrow> (Inr queued, s'))"

subsection \<open>Running a claimed run\<close>

definition truncateString :: "string \<Rightarrow> int \<Rightarrow> string" where
  "truncateString s mx = (if mx \<le> 0 \<or> int (length s) \<le> mx then s else take (nat mx) s)"

definition finishRun :: "string \<Rightarrow> string \<Rightarrow> string option \<Rightarrow> string option \<Rightarrow> instant \<Rightarrow> instant \<Rightarrow> Store \<Rightarrow> Store" where
  "finishRun runID status errStr summary now stamp s =
     s\<lparr>runs := map (\<lambda>r. if CronRun.ID r = runID
                          then r\<lparr>Status := status, FinishedAt := Some now, Error := errStr,
                                 ResultSummary := summary, CronRun.UpdatedAt := stamp\<rparr>
                          else r)
                   (runs s)\<rparr>"

text \<open>
  What the worker sees when the task runner returns: the runner's two results (an error
  is its text) and what \<open>Err()\<close> of the run's context and of the worker's context say.
\<close>

datatype ctx_err = NoErr | Canceled | DeadlineExceeded

record outcome =
  summary :: "string option"
  runErr :: "string option"
  runCtxErr :: ctx_err
  ctxErr :: ctx_err

text \<open>
  The classification of \<open>executeRun\<close>: the status and the error string before the last
  truncation. \<open>durationString\<close> is \<open>time.Duration.String\<close>.
\<close>

definition classify :: "(int \<Rightarrow> string) \<Rightarrow> Scheduler \<Rightarrow> int \<Rightarrow> outcome \<Rightarrow> string \<times> string option" where
  "classify durationString sch timeout out =
     (if runErr out = None then (StatusSuccess, None)
      else if runCtxErr out = DeadlineExceeded then
        (StatusTimedOut, Some (''timeout: run exceeded '' @ durationString timeout @ '' deadline''))
      else if runCtxErr out = Canceled \<or> ctxErr out = Canceled then
        (StatusCanceled, Some ''canceled'')
      else
        (StatusFailed, Some (truncateString (the (runErr out)) (MaxErrorChars (cfg sch)))))"

definition executeRun :: "(int \<Rightarrow> string) \<Rightarrow> Scheduler \<Rightarrow> CronRun \<Rightarrow> outcome \<Rightarrow> instant \<Rightarrow> instant \<Rightarrow> Store \<Rightarrow> Store" where
  "executeRun durationString sch run out now stamp s =
     (case First s (JobID run) of
        None \<Rightarrow>
          finishRun (CronRun.ID run) StatusFailed
            (Some (truncateString ''record not found'' (MaxErrorChars (cfg sch)))) None now stamp s
      | Some job \<Rightarrow>
          (let timeout = (if TimeoutSeconds job \<noteq> None \<and> the (TimeoutSeconds job) > 0
                          then wrap64 (the (TimeoutSeconds job) * Second)
                          else defaultTimeout);
               (status, errStr0) = classify durationString sch timeout out;
               summary1 = (case summary out of
                             None \<Rightarrow> None
                           | Some text \<Rightarrow>
                               Some (truncateString text (MaxSummaryChars (cfg sch))));
               errStr = (case errStr0 of
                           None \<Rightarrow> None
                         | Some text \<Rightarrow> Some (truncateString text (MaxErrorChars (cfg sch))))
           in finishRun (CronRun.ID run) status errStr summary1 now stamp s))"

section \<open>Example inputs\<close>

text \<open>The expression \<open>0 9 * * *\<close> as \<open>parseCronExpr\<close> compiles it.\<close>

definition dailyAtNine :: cronExpr where
  "dailyAtNine =
     \<lparr>minute = Some \<lparr>vs_min = 0, vs_max = 59, vs_all = False, vs_val = {0}\<rparr>,
      hour = Some \<lparr>vs_min = 0, vs_max = 23, vs_all = False, vs_val = {9}\<rparr>,
      dom = Some \<lparr>vs_min = 1, vs_max = 31, vs_all = True, vs_val = {}\<rparr>,
      month = Some \<lparr>vs_min = 1, vs_max = 12, vs_all = True, vs_val = {}\<rparr>,
      dow = Some \<lparr>vs_min = 0, vs_max = 6, vs_all = True, vs_val = {}\<rparr>,
      domAny = True, dowAny = True\<rparr>"

text \<open>The expression \<open>0 0 13 * 5\<close>: midnight of every 13th and of every Friday.\<close>

definition fridayOr13th :: cronExpr where
  "fridayOr13th =
     \<lparr>minute = Some \<lparr>vs_min = 0, vs_max = 59, vs_all = False, vs_val = {0}\<rparr>,
      hour = Some \<lparr>vs_min = 0, vs_max = 23, vs_all = False, vs_val = {0}\<rparr>,
      dom = Some \<lparr>vs_min = 1, vs_max = 31, vs_all = False, vs_val = {13}\<rparr>,
      month = Some \<lparr>vs_min = 1, vs_max = 12, vs_all = True, vs_val = {}\<rparr>,
      dow = Some \<lparr>vs_min = 0, vs_max = 6, vs_all = False, vs_val = {5}\<rparr>,
      domAny = False, dowAny = False\<rparr>"

text \<open>A job that fires every \<open>iv\<close> seconds.\<close>

definition intervalJob :: "int \<Rightarrow> CronJob" where
  "intervalJob iv =
     \<lparr>CronJob.ID = ''job-1'', Name = ''every'', CronJob.Enabled = True, Schedule = None,
      IntervalSeconds = Some iv, Task = ''report'', RunOnce = False,
      NotifyTelegramChatID = None, Provider = None, Model = None, TimeoutSeconds = None,
      OverlapPolicy = ''forbid'', LastRunAt = None, NextRunAt = None,
      CronJob.CreatedAt = 1770000000, CronJob.UpdatedAt = 1770000000\<rparr>"

text \<open>The same job with a cron expression as well: both schedule fields are set.\<close>

definition bothJob :: CronJob where
  "bothJob = (intervalJob 60)\<lparr>Schedule := Some ''0 9 * * *''\<rparr>"

text \<open>\<open>strings.ToLower\<close> on strings of ASCII bytes, for the examples.\<close>

definition ToLowerASCII :: "string \<Rightarrow> string" where
  "ToLowerASCII s =
     map (\<lambda>c. if 65 \<le> (of_char c :: nat) \<and> (of_char c :: nat) \<le> 90
               then char_of ((of_char c :: nat) + 32) else c) s"

text \<open>
  A job that is due at 2026-02-03T09:00:00Z, one run of it that is still running, and
  stores that hold the job with and without that run.
\<close>

definition dueJob :: "string \<Rightarrow> bool \<Rightarrow> CronJob" where
  "dueJob policy once =
     (intervalJob 60)\<lparr>OverlapPolicy := policy, RunOnce := once, NextRunAt := Some 1770109200\<rparr>"

definition runningRun :: CronRun where
  "runningRun =
     \<lparr>CronRun.ID = ''run-1'', JobID = ''job-1'', JobUpdatedAt = 1770000000,
      Status = StatusRunning, ScheduledFor = 1770109140, StartedAt = Some 1770109141,
      FinishedAt = None, Attempt = 1, Error = None, ResultSummary = None,
      CronRun.CreatedAt = 1770109140, CronRun.UpdatedAt = 1770109141\<rparr>"

definition busyStore :: "string \<Rightarrow> bool \<Rightarrow> Store" where
  "busyStore policy once = \<lparr>jobs = [dueJob policy once], runs = [runningRun]\<rparr>"

definition idleStore :: "string \<Rightarrow> bool \<Rightarrow> Store" where
  "idleStore policy once = \<lparr>jobs = [dueJob policy once], runs = []\<rparr>"

text \<open>A scheduler as \<open>New\<close> builds it from the default configuration.\<close>

definition exampleScheduler :: "bool \<Rightarrow> int \<Rightarrow> Scheduler" where
  "exampleScheduler on maxSummary =
     \<lparr>cfg = DefaultConfig\<lparr>Config.Enabled := on, MaxSummaryChars := maxSummary\<rparr>,
      defaultModel = ''model''\<rparr>"

text \<open>
  The number of characters of a UTF-8 string, as the claim on truncation counts lengths:
  the bytes that do not continue a character. The string \<open>twoAccented\<close> is two times
  the letter e with an acute accent (U+00E9, the bytes C3 A9): two characters, four bytes.
\<close>

definition characterCount :: "string \<Rightarrow> nat" where
  "characterCount s =
     length (filter (\<lambda>c. \<not> (128 \<le> (of_char c :: nat) \<and> (of_char c :: nat) < 192)) s)"

definition twoAccented :: string where
  "twoAccented = [char_of (195 :: nat), char_of (169 :: nat), char_of (195 :: nat), char_of (169 :: nat)]"


definition summaryOutcome :: "string \<Rightarrow> outcome" where
  "summaryOutcome text = \<lparr>summary = Some text, runErr = None, runCtxErr = NoErr, ctxErr = NoErr\<rparr>"

text \<open>A store as a process that died left it: one run running, one queued.\<close>

definition queuedRun :: CronRun where
  "queuedRun =
     \<lparr>CronRun.ID = ''run-0'', JobID = ''job-1'', JobUpdatedAt = 1770000000,
      Status = StatusQueued, ScheduledFor = 1770109080, StartedAt = None,
      FinishedAt = None, Attempt = 1, Error = None, ResultSummary = None,
      CronRun.CreatedAt = 1770109080, CronRun.UpdatedAt = 1770109080\<rparr>"

definition crashedStore :: Store where
  "crashedStore = \<lparr>jobs = [dueJob ''forbid'' False], runs = [runningRun, queuedRun]\<rparr>"

section \<open>Properties of the cron engine\<close>

lemma matches_iff:
  "matches e t \<longleftrightarrow>
     has (minute e) (Minute t) \<and> has (hour e) (Hour t) \<and> has (month e) (Month t) \<and>
     (if \<not> domAny e \<and> \<not> dowAny e then has (dom e) (Day t) \<or> has (dow e) (Weekday t)
      else if \<not> domAny e then has (dom e) (Day t)
      else if \<not> dowAny e then has (dow e) (Weekday t)
      else True)"
  by (simp add: matches_def Let_def)

lemma nextFrom_Inr:
  "nextFrom e t limit = Inr r \<Longrightarrow>
     \<exists>k::nat. r = t + 60 * int k \<and> r < limit \<and> matches e r \<and>
       (\<forall>j<k. \<not> matches e (t + 60 * int j))"
proof (induction e t limit rule: nextFrom.induct)
  case (1 e t limit)
  show ?case
  proof (cases "t < limit")
    case False
    with "1.prems" show ?thesis by (simp add: nextFrom.simps [of e t limit])
  next
    case inside: True
    show ?thesis
    proof (cases "matches e t")
      case True
      with inside "1.prems" have "r = t" by (simp add: nextFrom.simps [of e t limit])
      with inside True have "r = t + 60 * int 0 \<and> r < limit \<and> matches e r \<and>
          (\<forall>j<0::nat. \<not> matches e (t + 60 * int j))" by simp
      then show ?thesis by blast
    next
      case False
      with inside "1.prems" have rec: "nextFrom e (t + 60) limit = Inr r"
        by (simp add: nextFrom.simps [of e t limit])
      from "1.IH" [OF inside False rec]
      obtain k :: nat where k: "r = t + 60 + 60 * int k" "r < limit" "matches e r"
        "\<forall>j<k. \<not> matches e (t + 60 + 60 * int j)" by blast
      have "\<not> matches e (t + 60 * int j)" if "j < Suc k" for j
      proof (cases j)
        case 0
        with False show ?thesis by simp
      next
        case (Suc i)
        with that have "i < k" by simp
        with k(4) have "\<not> matches e (t + 60 + 60 * int i)" by blast
        with Suc show ?thesis by (simp add: algebra_simps)
      qed
      moreover from k(1) have "r = t + 60 * int (Suc k)" by simp
      ultimately show ?thesis using k(2,3) by blast
    qed
  qed
qed

lemma nextFrom_Inl:
  "nextFrom e t limit = Inl err \<Longrightarrow>
     err = NoMatchingTime \<and>
     (\<forall>j::nat. t + 60 * int j < limit \<longrightarrow> \<not> matches e (t + 60 * int j))"
proof (induction e t limit rule: nextFrom.induct)
  case (1 e t limit)
  show ?case
  proof (cases "t < limit")
    case False
    have "\<not> t + 60 * int j < limit" for j :: nat using False by simp
    with False "1.prems" show ?thesis by (simp add: nextFrom.simps [of e t limit])
  next
    case inside: True
    show ?thesis
    proof (cases "matches e t")
      case True
      with inside "1.prems" show ?thesis by (simp add: nextFrom.simps [of e t limit])
    next
      case False
      with inside "1.prems" have rec: "nextFrom e (t + 60) limit = Inl err"
        by (simp add: nextFrom.simps [of e t limit])
      from "1.IH" [OF inside False rec]
      have ih: "err = NoMatchingTime"
        "\<forall>j::nat. t + 60 + 60 * int j < limit \<longrightarrow> \<not> matches e (t + 60 + 60 * int j)"
        by simp_all
      have "\<not> matches e (t + 60 * int j)" if "t + 60 * int j < limit" for j :: nat
      proof (cases j)
        case 0
        with False show ?thesis by simp
      next
        case (Suc i)
        with that have "t + 60 + 60 * int i < limit" by (simp add: algebra_simps)
        with ih(2) have "\<not> matches e (t + 60 + 60 * int i)" by blast
        with Suc show ?thesis by (simp add: algebra_simps)
      qed
      with ih(1) show ?thesis by simp
    qed
  qed
qed

lemma searchStart_eq: "searchStart after = after + 60 - (after + 60) mod 60"
  unfolding searchStart_def by (simp add: minus_mod_eq_div_mult [symmetric])

lemma searchStart_aligned: "searchStart after mod 60 = 0"
  by (simp add: searchStart_def)

lemma searchStart_bounds: "after < searchStart after \<and> searchStart after \<le> after + 60"
proof -
  have "0 \<le> (after + 60) mod 60" and "(after + 60) mod 60 < 60" by simp_all
  then show ?thesis unfolding searchStart_eq by linarith
qed

lemma aligned_offset:
  fixes s u :: int
  assumes "s mod 60 = 0" and "u mod 60 = 0" and "s \<le> u"
  shows "\<exists>j::nat. u = s + 60 * int j"
proof -
  from assms have "60 dvd s" and "60 dvd u" by (simp_all add: dvd_eq_mod_eq_0)
  then have "60 dvd (u - s)" by (rule dvd_diff [rotated])
  then obtain q where q: "u - s = 60 * q" by (auto simp: dvd_def)
  with assms(3) have "0 \<le> q" by simp
  then have "u = s + 60 * int (nat q)" using q by simp
  then show ?thesis ..
qed

lemma searchStart_least:
  assumes "after < u" and "u mod 60 = 0"
  shows "searchStart after \<le> u"
proof (rule ccontr)
  assume "\<not> searchStart after \<le> u"
  then have lt: "u < searchStart after" by simp
  from aligned_offset [OF assms(2) searchStart_aligned, of after] lt
  obtain j :: nat where j: "searchStart after = u + 60 * int j" by auto
  with lt have "0 < j" by (cases j) simp_all
  then have "u + 60 \<le> searchStart after" using j by simp
  with searchStart_bounds [of after] assms(1) show False by simp
qed

lemma parse_dailyAtNine: "parseCronExpr ''0 9 * * *'' = Inr dailyAtNine"
  by code_simp

lemma parse_fridayOr13th: "parseCronExpr ''0 0 13 * 5'' = Inr fridayOr13th"
  by code_simp

text \<open>
  The three tests of the repository for the cron engine: every minute after
  2026-02-03T09:00:30Z, daily at nine after 2026-02-03T08:59:59Z, and an expression of
  four fields.
\<close>

lemma TestCronExpr_Next_AllAny:
  "(case parseCronExpr ''* * * * *'' of
      Inl err \<Rightarrow> Inl err
    | Inr e \<Rightarrow> cronExpr_next e 1770109230) = Inr 1770109260"
  by code_simp

lemma TestCronExpr_Next_DailyAt0900:
  "(case parseCronExpr ''0 9 * * *'' of
      Inl err \<Rightarrow> Inl err
    | Inr e \<Rightarrow> cronExpr_next e 1770109199) = Inr 1770109200"
  by code_simp

lemma TestCronExpr_Invalid: "parseCronExpr ''0 0 * *'' = Inl (ExpectedFiveFields ''0 0 * *'')"
  by code_simp

text \<open>
  C2. For every cron expression \<open>e\<close> (so for every one that \<open>parseCronExpr\<close> accepts) and
  every instant \<open>after\<close>, \<open>cronExpr_next e after\<close> either returns an instant \<open>r\<close> that is
  strictly later than \<open>after\<close>, a whole minute, accepted by the loop body (minute, hour
  and month are in their sets and the two day fields hold by their combination rule) and
  inside the search window, with no whole minute between \<open>after\<close> and \<open>r\<close> accepted;
  or it fails with \<open>NoMatchingTime\<close>, and then no whole minute later than \<open>after\<close> and
  before the limit (366 days after the first minute tried) is accepted. The search is a
  total function, so one of the two always happens.
\<close>

theorem cronExpr_next_earliest:
  "(case cronExpr_next e after of
      Inr r \<Rightarrow>
        after < r \<and> r mod 60 = 0 \<and> matches e r \<and> r < searchLimit after \<and>
        has (minute e) (Minute r) \<and> has (hour e) (Hour r) \<and> has (month e) (Month r) \<and>
        (if \<not> domAny e \<and> \<not> dowAny e then has (dom e) (Day r) \<or> has (dow e) (Weekday r)
         else if \<not> domAny e then has (dom e) (Day r)
         else if \<not> dowAny e then has (dow e) (Weekday r)
         else True) \<and>
        (\<forall>u. after < u \<and> u < r \<and> u mod 60 = 0 \<longrightarrow> \<not> matches e u)
    | Inl err \<Rightarrow>
        err = NoMatchingTime \<and>
        (\<forall>u. after < u \<and> u < searchLimit after \<and> u mod 60 = 0 \<longrightarrow> \<not> matches e u))"
proof (cases "cronExpr_next e after")
  case (Inr r)
  then have nf: "nextFrom e (searchStart after) (searchLimit after) = Inr r"
    by (simp add: cronExpr_next_def)
  from nextFrom_Inr [OF nf] obtain k :: nat where
    k: "r = searchStart after + 60 * int k" "r < searchLimit after" "matches e r"
       "\<forall>j<k. \<not> matches e (searchStart after + 60 * int j)" by blast
  from k(1) searchStart_bounds [of after] have gt: "after < r" by simp
  from k(1) searchStart_aligned [of after] have al: "r mod 60 = 0" by simp
  have "\<not> matches e u" if u: "after < u" "u < r" "u mod 60 = 0" for u
  proof -
    from u have "searchStart after \<le> u" by (simp add: searchStart_least)
    from aligned_offset [OF searchStart_aligned u(3) this]
    obtain j :: nat where j: "u = searchStart after + 60 * int j" by blast
    with u(2) k(1) have "j < k" by simp
    with k(4) j show ?thesis by blast
  qed
  moreover from k(3) have
    "has (minute e) (Minute r) \<and> has (hour e) (Hour r) \<and> has (month e) (Month r) \<and>
     (if \<not> domAny e \<and> \<not> dowAny e then has (dom e) (Day r) \<or> has (dow e) (Weekday r)
      else if \<not> domAny e then has (dom e) (Day r)
      else if \<not> dowAny e then has (dow e) (Weekday r)
      else True)"
    by (rule iffD1 [OF matches_iff])
  ultimately show ?thesis using k(2,3) gt al Inr by simp
next
  case (Inl err)
  then have nf: "nextFrom e (searchStart after) (searchLimit after) = Inl err"
    by (simp add: cronExpr_next_def)
  note f = nextFrom_Inl [OF nf]
  have "\<not> matches e u" if u: "after < u" "u < searchLimit after" "u mod 60 = 0" for u
  proof -
    from u have "searchStart after \<le> u" by (simp add: searchStart_least)
    from aligned_offset [OF searchStart_aligned u(3) this]
    obtain j :: nat where j: "u = searchStart after + 60 * int j" by blast
    with u(2) f show ?thesis by blast
  qed
  with f Inl show ?thesis by simp
qed

theorem cronExpr_next_earliest_witness:
  "parseCronExpr ''0 9 * * *'' = Inr dailyAtNine \<and>
   cronExpr_next dailyAtNine 1770109079 = Inr 1770109200 \<and>
   (1770109079 :: int) < 1770109200 \<and> (1770109200 :: int) mod 60 = 0 \<and>
   matches dailyAtNine 1770109200 \<and> \<not> matches dailyAtNine 1770109140"
proof -
  have a: "cronExpr_next dailyAtNine 1770109079 = Inr 1770109200" by code_simp
  from cronExpr_next_earliest [where e = dailyAtNine and after = 1770109079] a
  have m: "matches dailyAtNine 1770109200"
    and n: "\<forall>u. 1770109079 < u \<and> u < 1770109200 \<and> u mod 60 = 0 \<longrightarrow> \<not> matches dailyAtNine u"
    by simp_all
  from n have "\<not> matches dailyAtNine 1770109140" by simp
  with m a parse_dailyAtNine show ?thesis by simp
qed

text \<open>
  C7. For an expression that \<open>parseCronExpr\<close> accepts, \<open>domAny\<close> and \<open>dowAny\<close> say
  whether the third and the fifth field are the token \<open>*\<close>. An instant is accepted when
  minute, hour and month are and: if neither of the two fields is \<open>*\<close>, the day of the
  month or the day of the week is in its set; if only the day of the month is restricted,
  it is in its set; if only the day of the week is restricted, it is in its set; a field
  that is \<open>*\<close> adds no condition.
\<close>

theorem dom_dow_rule:
  assumes "parseCronExpr expr = Inr e"
  shows "\<exists>f0 f1 f2 f3 f4.
           Fields (TrimSpace expr) = [f0, f1, f2, f3, f4] \<and>
           domAny e = (TrimSpace f2 = ''*'') \<and> dowAny e = (TrimSpace f4 = ''*'') \<and>
           (\<forall>t. matches e t =
              (has (minute e) (Minute t) \<and> has (hour e) (Hour t) \<and> has (month e) (Month t) \<and>
               (if \<not> domAny e \<and> \<not> dowAny e
                  then has (dom e) (Day t) \<or> has (dow e) (Weekday t)
                else if \<not> domAny e then has (dom e) (Day t)
                else if \<not> dowAny e then has (dow e) (Weekday t)
                else True)))"
proof -
  from assms obtain f0 f1 f2 f3 f4 where fs: "Fields (TrimSpace expr) = [f0, f1, f2, f3, f4]"
    by (auto simp: parseCronExpr_def split: list.splits)
  from assms fs have "domAny e = (TrimSpace f2 = ''*'') \<and> dowAny e = (TrimSpace f4 = ''*'')"
    by (auto simp: parseCronExpr_def parseFieldWithAny_def split: sum.splits)
  with fs matches_iff show ?thesis by blast
qed

theorem dom_dow_rule_witness:
  "parseCronExpr ''0 0 13 * 5'' = Inr fridayOr13th \<and>
   Day 1770336000 = 6 \<and> Weekday 1770336000 = 5 \<and> matches fridayOr13th 1770336000 \<and>
   Day 1778630400 = 13 \<and> Weekday 1778630400 = 3 \<and> matches fridayOr13th 1778630400 \<and>
   Day 1770422400 = 7 \<and> Weekday 1770422400 = 6 \<and> \<not> matches fridayOr13th 1770422400"
proof -
  from dom_dow_rule [OF parse_fridayOr13th]
  have r: "matches fridayOr13th t =
      (has (minute fridayOr13th) (Minute t) \<and> has (hour fridayOr13th) (Hour t) \<and>
       has (month fridayOr13th) (Month t) \<and>
       (if \<not> domAny fridayOr13th \<and> \<not> dowAny fridayOr13th
          then has (dom fridayOr13th) (Day t) \<or> has (dow fridayOr13th) (Weekday t)
        else if \<not> domAny fridayOr13th then has (dom fridayOr13th) (Day t)
        else if \<not> dowAny fridayOr13th then has (dow fridayOr13th) (Weekday t)
        else True))" for t
    by blast
  have d1: "Day 1770336000 = 6" "Weekday 1770336000 = 5" "Minute 1770336000 = 0"
    "Hour 1770336000 = 0" by code_simp+
  have d2: "Day 1778630400 = 13" "Weekday 1778630400 = 3" "Minute 1778630400 = 0"
    "Hour 1778630400 = 0" by code_simp+
  have d3: "Day 1770422400 = 7" "Weekday 1770422400 = 6" "Minute 1770422400 = 0"
    "Hour 1770422400 = 0" by code_simp+
  have m1: "matches fridayOr13th 1770336000"
    unfolding r [of 1770336000] d1 by (simp add: fridayOr13th_def has_def)
  have m2: "matches fridayOr13th 1778630400"
    unfolding r [of 1778630400] d2 by (simp add: fridayOr13th_def has_def)
  have m3: "\<not> matches fridayOr13th 1770422400"
    unfolding r [of 1770422400] d3 by (simp add: fridayOr13th_def has_def)
  from m1 m2 m3 d1 d2 d3 parse_fridayOr13th show ?thesis by simp
qed

section \<open>The step loop returns\<close>

text \<open>
  For the bounds of the five cron fields the step loop returns for every step that
  \<open>Atoi\<close> can produce, so \<open>parseCronExpr\<close> never reports \<open>StepLoopDiverges\<close>: the parser
  is total.
\<close>

lemma wrap64_id: "minInt64 \<le> x \<Longrightarrow> x \<le> maxInt64 \<Longrightarrow> wrap64 x = x"
  by (simp add: wrap64_def minInt64_def maxInt64_def)

lemma stepLoop_no_wrap:
  assumes "0 < step" and "mx + step \<le> maxInt64" and "minInt64 \<le> v"
  shows "\<exists>r. stepLoop v mx step vals = Some r"
  using assms(3)
proof (induction "nat (mx - v + 1)" arbitrary: v vals rule: less_induct)
  case less
  show ?case
  proof (cases "v \<le> mx")
    case False
    then show ?thesis by (simp add: stepLoop.simps [of v mx step vals])
  next
    case True
    with assms less.prems have w: "wrap64 (v + step) = v + step"
      by (intro wrap64_id) simp_all
    from True assms(1) have "nat (mx - (v + step) + 1) < nat (mx - v + 1)" by simp
    moreover from less.prems assms(1) have "minInt64 \<le> v + step" by simp
    ultimately obtain r where "stepLoop (v + step) mx step (insert v vals) = Some r"
      using less.hyps by blast
    with True w show ?thesis by (simp add: stepLoop.simps [of v mx step vals])
  qed
qed

lemma stepLoop_field:
  assumes "0 < step" and "step \<le> maxInt64" and "0 \<le> mn" and "mn \<le> 1" and "mn \<le> mx"
    and "mx \<le> 59"
  shows "\<exists>r. stepLoop mn mx step vals = Some r"
proof (cases "mx + step \<le> maxInt64")
  case True
  with assms show ?thesis by (intro stepLoop_no_wrap) (simp_all add: minInt64_def)
next
  case big: False
  show ?thesis
  proof (cases "mn + step \<le> maxInt64")
    case True
    with assms have w: "wrap64 (mn + step) = mn + step"
      by (intro wrap64_id) (simp_all add: minInt64_def)
    from big assms have "\<not> mn + step \<le> mx" by (simp add: maxInt64_def)
    with assms w show ?thesis
      by (simp add: stepLoop.simps [of mn mx step vals]
          stepLoop.simps [of "mn + step" mx step "insert mn vals"])
  next
    case False
    with assms have mn: "mn = 1" and st: "step = 9223372036854775807"
      by (simp_all add: maxInt64_def)
    from assms mn show ?thesis unfolding mn st
      by (simp add: stepLoop.simps [of 1 mx 9223372036854775807 vals]
          stepLoop.simps [of "- 9223372036854775808" mx 9223372036854775807 "insert 1 vals"]
          stepLoop.simps [of "- 1" mx 9223372036854775807 "insert (- 9223372036854775808) (insert 1 vals)"]
          stepLoop.simps [of 9223372036854775806 mx 9223372036854775807
            "insert (- 1) (insert (- 9223372036854775808) (insert 1 vals))"]
          wrap64_def)
  qed
qed

lemma Atoi_range: "Atoi s = Some n \<Longrightarrow> minInt64 \<le> n \<and> n \<le> maxInt64"
  by (auto simp: Atoi_def Let_def split: if_splits)

lemma parseParts_returns:
  assumes "0 \<le> mn" and "mn \<le> 1" and "mn \<le> mx" and "mx \<le> 59"
  shows "parseParts ps tok mn mx out \<noteq> Inl StepLoopDiverges"
proof (induction ps arbitrary: out)
  case Nil
  show ?case by (simp add: Let_def)
next
  case (Cons p0 ps)
  show ?case
  proof (cases "Atoi (TrimPrefix (TrimSpace p0) ''*/'')")
    case None
    with Cons show ?thesis by (simp add: Let_def split: option.splits)
  next
    case (Some step)
    show ?thesis
    proof (cases "step \<le> 0")
      case True
      with Some Cons show ?thesis by (simp add: Let_def split: option.splits)
    next
      case False
      with Atoi_range [OF Some] assms
      obtain r where "stepLoop mn mx step (vs_val out) = Some r"
        using stepLoop_field [of step mn mx "vs_val out"] by auto
      with Some False Cons show ?thesis by (simp add: Let_def split: option.splits)
    qed
  qed
qed

lemma parseField_returns:
  assumes "0 \<le> mn" and "mn \<le> 1" and "mn \<le> mx" and "mx \<le> 59"
  shows "parseField tok mn mx \<noteq> Inl StepLoopDiverges"
  using parseParts_returns [OF assms] by (simp add: parseField_def Let_def)

lemma parseCronExpr_returns: "parseCronExpr expr \<noteq> Inl (FieldError name StepLoopDiverges)"
proof -
  have a: "parseField f 0 59 \<noteq> Inl StepLoopDiverges" "parseField f 0 23 \<noteq> Inl StepLoopDiverges"
    "parseField f 1 31 \<noteq> Inl StepLoopDiverges" "parseField f 1 12 \<noteq> Inl StepLoopDiverges"
    "parseField f 0 6 \<noteq> Inl StepLoopDiverges" for f
    by (rule parseField_returns; simp)+
  show ?thesis
    using a by (auto simp: parseCronExpr_def parseFieldWithAny_def split: list.splits sum.splits)
qed

section \<open>Properties of the schedule resolver\<close>


lemma cronExpr_next_error: "cronExpr_next e t = Inl err \<Longrightarrow> err = NoMatchingTime"
proof -
  assume "cronExpr_next e t = Inl err"
  then have "nextFrom e (searchStart t) (searchLimit t) = Inl err" by (simp add: cronExpr_next_def)
  from nextFrom_Inl [OF this] show ?thesis by simp
qed

lemma parseCronExpr_error:
  "parseCronExpr expr = Inl err \<Longrightarrow> err = ExpectedFiveFields expr \<or> (\<exists>n fe. err = FieldError n fe)"
  by (auto simp: parseCronExpr_def split: list.splits sum.splits)

lemma interval_duration:
  assumes "0 < iv" and "iv \<le> 9223372036"
  shows "wrap64 (iv * Second) div Second = iv"
proof -
  from assms have "minInt64 \<le> iv * Second" and "iv * Second \<le> maxInt64"
    by (simp_all add: Second_def minInt64_def maxInt64_def)
  then have "wrap64 (iv * Second) = iv * Second" by (rule wrap64_id)
  then show ?thesis by (simp add: Second_def)
qed

lemma nextRunAt_interval:
  assumes "Schedule job = None \<or> TrimSpace (the (Schedule job)) = []"
    and "IntervalSeconds job = Some iv" and "0 < iv" and "iv \<le> 9223372036"
  shows "nextRunAt job t = Inr (t + iv)"
  using assms by (auto simp: nextRunAt_def AddUnix_def interval_duration)


lemma nextRunAt_resolves:
  "nextRunAt job t =
     (if Schedule job \<noteq> None \<and> TrimSpace (the (Schedule job)) \<noteq> [] then
        (case parseCronExpr (the (Schedule job)) of
           Inl err \<Rightarrow> Inl err
         | Inr expr \<Rightarrow> cronExpr_next expr t)
      else if IntervalSeconds job \<noteq> None \<and> 0 < the (IntervalSeconds job) then
        (if the (IntervalSeconds job) \<le> 9223372036 then Inr (t + the (IntervalSeconds job))
         else Inr (t + wrap64 (the (IntervalSeconds job) * Second) div Second))
      else Inl NoScheduleNorInterval)"
  by (auto simp: nextRunAt_def AddUnix_def interval_duration split: sum.splits)

text \<open>
  C8. The resolver returns the cron engine's result (its value or its error) when the
  schedule is set, and fails when neither field is usable (\<open>nextRunAt_resolves\<close>). For an
  interval it returns \<open>after + interval_seconds\<close> only while
  \<open>interval_seconds * 1000000000\<close> fits 64 bits (\<open>nextRunAt_interval\<close>): the product
  \<open>time.Duration(*job.IntervalSeconds) * time.Second\<close> is a 64-bit multiplication. With
  \<open>interval_seconds = 60\<close> the next run is 60 seconds later, as the repository's test
  expects; with \<open>interval_seconds = 9223372037\<close> the product wraps around and the next run
  lies 9223372037 seconds before \<open>after\<close>.
\<close>

theorem nextRunAt_interval_overflow:
  "nextRunAt (intervalJob 60) 1770109200 = Inr (1770109200 + 60) \<and>
   nextRunAt (intervalJob 9223372037) 1770109200 = Inr (1770109200 - 9223372037)"
  by (simp add: nextRunAt_def intervalJob_def AddUnix_def wrap64_def Second_def)

text \<open>
  C10. When the schedule of a job is set (not nil and not only white space), the result
  of \<open>nextRunAt\<close> does not depend on \<open>IntervalSeconds\<close>: it is the cron engine's result
  for the schedule, and it is never the error of a job without schedule and interval. The
  interval is read only when the schedule is nil or only white space.
\<close>

theorem cron_before_interval:
  "(Schedule job \<noteq> None \<and> TrimSpace (the (Schedule job)) \<noteq> [] \<longrightarrow>
      nextRunAt (job\<lparr>IntervalSeconds := iv\<rparr>) t = nextRunAt job t \<and>
      nextRunAt job t =
        (case parseCronExpr (the (Schedule job)) of
           Inl err \<Rightarrow> Inl err
         | Inr expr \<Rightarrow> cronExpr_next expr t) \<and>
      nextRunAt job t \<noteq> Inl NoScheduleNorInterval) \<and>
   (Schedule job = None \<or> TrimSpace (the (Schedule job)) = [] \<longrightarrow>
      nextRunAt job t =
        (if IntervalSeconds job \<noteq> None \<and> the (IntervalSeconds job) > 0
         then Inr (AddUnix t (wrap64 (the (IntervalSeconds job) * Second)))
         else Inl NoScheduleNorInterval))"
proof (intro conjI impI)
  assume set: "Schedule job \<noteq> None \<and> TrimSpace (the (Schedule job)) \<noteq> []"
  then show "nextRunAt (job\<lparr>IntervalSeconds := iv\<rparr>) t = nextRunAt job t"
    by (simp add: nextRunAt_def)
  from set show eq: "nextRunAt job t =
      (case parseCronExpr (the (Schedule job)) of
         Inl err \<Rightarrow> Inl err
       | Inr expr \<Rightarrow> cronExpr_next expr t)"
    by (simp add: nextRunAt_def split: sum.splits)
  show "nextRunAt job t \<noteq> Inl NoScheduleNorInterval"
  proof
    assume bad: "nextRunAt job t = Inl NoScheduleNorInterval"
    show False
    proof (cases "parseCronExpr (the (Schedule job))")
      case (Inl err)
      with eq bad have "err = NoScheduleNorInterval" by simp
      with parseCronExpr_error [OF Inl] show False by auto
    next
      case (Inr expr)
      with eq bad have "cronExpr_next expr t = Inl NoScheduleNorInterval" by simp
      from cronExpr_next_error [OF this] show False by simp
    qed
  qed
next
  assume "Schedule job = None \<or> TrimSpace (the (Schedule job)) = []"
  then show "nextRunAt job t =
      (if IntervalSeconds job \<noteq> None \<and> the (IntervalSeconds job) > 0
       then Inr (AddUnix t (wrap64 (the (IntervalSeconds job) * Second)))
       else Inl NoScheduleNorInterval)"
    by (auto simp: nextRunAt_def)
qed

theorem cron_before_interval_witness:
  "Schedule bothJob = Some ''0 9 * * *'' \<and> IntervalSeconds bothJob = Some 60 \<and>
   nextRunAt bothJob 1770109199 = Inr 1770109200 \<and>
   nextRunAt (bothJob\<lparr>IntervalSeconds := None\<rparr>) 1770109199 = Inr 1770109200 \<and>
   nextRunAt (bothJob\<lparr>Schedule := Some '' ''\<rparr>) 1770109199 = Inr 1770109259"
proof -
  have ts: "TrimSpace ''0 9 * * *'' \<noteq> []" and te: "TrimSpace '' '' = []" by code_simp+
  have nx: "cronExpr_next dailyAtNine 1770109199 = Inr 1770109200" by code_simp
  have sch: "Schedule bothJob = Some ''0 9 * * *''" "IntervalSeconds bothJob = Some 60"
    by (simp_all add: bothJob_def intervalJob_def)
  from cron_before_interval [of bothJob None 1770109199] sch ts
  have a: "nextRunAt (bothJob\<lparr>IntervalSeconds := None\<rparr>) 1770109199 = nextRunAt bothJob 1770109199"
    and b: "nextRunAt bothJob 1770109199 =
      (case parseCronExpr ''0 9 * * *'' of Inl err \<Rightarrow> Inl err | Inr expr \<Rightarrow> cronExpr_next expr 1770109199)"
    by simp_all
  from b have b': "nextRunAt bothJob 1770109199 = Inr 1770109200"
    by (simp add: parse_dailyAtNine nx)
  from cron_before_interval [of "bothJob\<lparr>Schedule := Some '' ''\<rparr>" None 1770109199] te sch
  have c: "nextRunAt (bothJob\<lparr>Schedule := Some '' ''\<rparr>) 1770109199 = Inr 1770109259"
    by (simp add: AddUnix_def wrap64_def Second_def)
  from a b' c sch show ?thesis by simp
qed

section \<open>Properties of the enqueue transaction\<close>

lemma First_ID: "First s jobID = Some job \<Longrightarrow> CronJob.ID job = jobID"
  by (auto simp: First_def find_Some_iff)

lemma find_map_update:
  assumes "\<And>j. CronJob.ID (f j) = CronJob.ID j"
  shows "find (\<lambda>j. CronJob.ID j = i) (map (\<lambda>j. if CronJob.ID j = i then f j else j) js) =
         map_option f (find (\<lambda>j. CronJob.ID j = i) js)"
  by (induction js) (simp_all add: assms)

lemma First_updateJob:
  assumes "\<And>j. CronJob.ID (upd j) = CronJob.ID j"
  shows "First (updateJob jobID upd stamp s) jobID =
         map_option (\<lambda>j. (upd j)\<lparr>CronJob.UpdatedAt := stamp\<rparr>) (First s jobID)"
proof -
  have "find (\<lambda>j. CronJob.ID j = jobID)
          (map (\<lambda>j. if CronJob.ID j = jobID then (upd j)\<lparr>CronJob.UpdatedAt := stamp\<rparr> else j) (jobs s)) =
        map_option (\<lambda>j. (upd j)\<lparr>CronJob.UpdatedAt := stamp\<rparr>) (find (\<lambda>j. CronJob.ID j = jobID) (jobs s))"
    by (rule find_map_update) (simp add: assms)
  then show ?thesis by (simp add: First_def updateJob_def)
qed

lemma First_createRun: "First (createRun run newID stamp s) jobID = First s jobID"
  by (simp add: First_def createRun_def)

lemma runs_updateJob: "runs (updateJob jobID upd stamp s) = runs s"
  by (simp add: updateJob_def)

text \<open>
  The transaction for a job that is due and whose row update can be computed: one run is
  inserted, skipped when a run of the job is running and the policy is \<open>forbid\<close>, queued
  otherwise, and the job row is updated.
\<close>

lemma enqueue_due:
  assumes job: "First s jobID = Some job"
    and en: "CronJob.Enabled job"
    and nr: "NextRunAt job = Some scheduledFor"
    and due: "scheduledFor \<le> now"
    and upd: "RunOnce job \<or> nextRunAt job scheduledFor = Inr nxt"
    and skip: "skip = (0 < length (filter (\<lambda>r. JobID r = jobID \<and> Status r = StatusRunning) (runs s)) \<and>
                 (lower (TrimSpace (OverlapPolicy job)) = [] \<or>
                  lower (TrimSpace (OverlapPolicy job)) = overlapForbid))"
  shows "fst (enqueueJobIfDue lower jobID now newID stamp s) = Inr (\<not> skip)"
    and "runs (snd (enqueueJobIfDue lower jobID now newID stamp s)) =
           runs s @
           [\<lparr>CronRun.ID = newID, JobID = jobID, JobUpdatedAt = CronJob.UpdatedAt job,
             Status = (if skip then StatusSkipped else StatusQueued),
             ScheduledFor = scheduledFor, StartedAt = None, FinishedAt = None, Attempt = 1,
             Error = (if skip then Some ''overlap_forbid: prior run still running'' else None),
             ResultSummary = None, CronRun.CreatedAt = stamp, CronRun.UpdatedAt = stamp\<rparr>]"
    and "First (snd (enqueueJobIfDue lower jobID now newID stamp s)) jobID =
           Some (if RunOnce job
                 then job\<lparr>CronJob.Enabled := False, LastRunAt := Some scheduledFor,
                          NextRunAt := None, CronJob.UpdatedAt := stamp\<rparr>
                 else job\<lparr>LastRunAt := Some scheduledFor, NextRunAt := Some nxt,
                          CronJob.UpdatedAt := stamp\<rparr>)"
proof -
  have id: "CronJob.ID job = jobID" using job by (rule First_ID)
  let ?run = "\<lparr>CronRun.ID = [], JobID = jobID, JobUpdatedAt = CronJob.UpdatedAt job,
             Status = (if skip then StatusSkipped else StatusQueued),
             ScheduledFor = scheduledFor, StartedAt = None, FinishedAt = None, Attempt = 1,
             Error = (if skip then Some ''overlap_forbid: prior run still running'' else None),
             ResultSummary = None, CronRun.CreatedAt = 0, CronRun.UpdatedAt = 0\<rparr>"
  let ?upd = "if RunOnce job
      then (\<lambda>j. j\<lparr>CronJob.Enabled := False, LastRunAt := Some scheduledFor, NextRunAt := None\<rparr>)
      else (\<lambda>j. j\<lparr>LastRunAt := Some scheduledFor, NextRunAt := Some nxt\<rparr>)"
  have body: "enqueueBody lower jobID now newID stamp s =
      ((None, \<not> skip), updateJob jobID ?upd stamp (createRun ?run newID stamp s))"
    using job en nr due upd skip id
    by (auto simp: enqueueBody_def Let_def)
  then have res: "enqueueJobIfDue lower jobID now newID stamp s =
      (Inr (\<not> skip), updateJob jobID ?upd stamp (createRun ?run newID stamp s))"
    by (simp add: enqueueJobIfDue_def Transaction_def)
  show "fst (enqueueJobIfDue lower jobID now newID stamp s) = Inr (\<not> skip)"
    by (simp add: res)
  show "runs (snd (enqueueJobIfDue lower jobID now newID stamp s)) =
           runs s @
           [\<lparr>CronRun.ID = newID, JobID = jobID, JobUpdatedAt = CronJob.UpdatedAt job,
             Status = (if skip then StatusSkipped else StatusQueued),
             ScheduledFor = scheduledFor, StartedAt = None, FinishedAt = None, Attempt = 1,
             Error = (if skip then Some ''overlap_forbid: prior run still running'' else None),
             ResultSummary = None, CronRun.CreatedAt = stamp, CronRun.UpdatedAt = stamp\<rparr>]"
    by (simp add: res runs_updateJob createRun_def)
  have "First (updateJob jobID ?upd stamp (createRun ?run newID stamp s)) jobID =
        map_option (\<lambda>j. (?upd j)\<lparr>CronJob.UpdatedAt := stamp\<rparr>)
          (First (createRun ?run newID stamp s) jobID)"
    by (rule First_updateJob) simp
  then show "First (snd (enqueueJobIfDue lower jobID now newID stamp s)) jobID =
           Some (if RunOnce job
                 then job\<lparr>CronJob.Enabled := False, LastRunAt := Some scheduledFor,
                          NextRunAt := None, CronJob.UpdatedAt := stamp\<rparr>
                 else job\<lparr>LastRunAt := Some scheduledFor, NextRunAt := Some nxt,
                          CronJob.UpdatedAt := stamp\<rparr>)"
    by (simp add: res First_createRun job)
qed


lemma lower_queue: "ToLowerASCII (TrimSpace ''queue'') = ''queue''"
  by code_simp

lemma First_busyStore: "First (busyStore policy once) ''job-1'' = Some (dueJob policy once)"
  by (simp add: First_def busyStore_def dueJob_def intervalJob_def)

lemma runs_busyStore: "map Status (runs (busyStore policy once)) = [StatusRunning]"
  by (simp add: busyStore_def runningRun_def)

lemma nextRunAt_dueJob: "nextRunAt (dueJob policy False) 1770109200 = Inr 1770109260"
  by (simp add: nextRunAt_def dueJob_def intervalJob_def AddUnix_def wrap64_def Second_def)



text \<open>
  C3, as the claim states it, fails: for the policy \<open>queue\<close> and a job with a running
  run, the new run is \<open>queued\<close>, not \<open>skipped\<close>.
\<close>

theorem other_policy_as_forbid_counterexample:
  "OverlapPolicy (dueJob ''queue'' False) = ''queue'' \<and>
   map Status (runs (busyStore ''queue'' False)) = [StatusRunning] \<and>
   fst (enqueueJobIfDue ToLowerASCII ''job-1'' 1770109205 ''run-2'' 1770109206
          (busyStore ''queue'' False)) = Inr True \<and>
   map Status (runs (snd (enqueueJobIfDue ToLowerASCII ''job-1'' 1770109205 ''run-2'' 1770109206
          (busyStore ''queue'' False)))) = [StatusRunning, StatusQueued] \<and>
   StatusQueued \<noteq> StatusSkipped"
proof -
  have sk: "False = (0 < length (filter (\<lambda>r. JobID r = ''job-1'' \<and> Status r = StatusRunning)
                          (runs (busyStore ''queue'' False))) \<and>
                 (ToLowerASCII (TrimSpace (OverlapPolicy (dueJob ''queue'' False))) = [] \<or>
                  ToLowerASCII (TrimSpace (OverlapPolicy (dueJob ''queue'' False))) = overlapForbid))"
    by (simp add: dueJob_def intervalJob_def lower_queue overlapForbid_def)
  have h3: "NextRunAt (dueJob ''queue'' False) = Some 1770109200"
    and h2: "CronJob.Enabled (dueJob ''queue'' False)"
    and h7: "RunOnce (dueJob ''queue'' False) \<or>
             nextRunAt (dueJob ''queue'' False) 1770109200 = Inr 1770109260"
    by (simp_all add: nextRunAt_dueJob, simp_all add: dueJob_def intervalJob_def)
  have h4: "(1770109200 :: int) \<le> 1770109205" by simp
  note e = enqueue_due [where lower = ToLowerASCII and skip = False and newID = "''run-2''"
      and stamp = 1770109206, OF First_busyStore h2 h3 h4 h7 sk]
  have "StatusQueued \<noteq> StatusSkipped" by (simp add: StatusSkipped_def StatusQueued_def)
  with e show ?thesis by (simp add: runs_busyStore dueJob_def)
qed

text \<open>
  C3, amended. Only the policy \<open>forbid\<close> (after trimming and lower-casing; empty counts
  as \<open>forbid\<close>) makes the transaction skip. For a due job with any other policy, such as
  \<open>queue\<close> or \<open>replace\<close>, the new run is recorded as \<open>queued\<close> whether or not a run of the
  job is still running, and the job row is updated as usual.
\<close>

theorem other_policy_queues:
  assumes "First s jobID = Some job"
    and "CronJob.Enabled job"
    and "NextRunAt job = Some scheduledFor"
    and "scheduledFor \<le> now"
    and "lower (TrimSpace (OverlapPolicy job)) \<noteq> []"
    and "lower (TrimSpace (OverlapPolicy job)) \<noteq> overlapForbid"
    and "RunOnce job \<or> nextRunAt job scheduledFor = Inr nxt"
  shows "fst (enqueueJobIfDue lower jobID now newID stamp s) = Inr True \<and>
         runs (snd (enqueueJobIfDue lower jobID now newID stamp s)) =
           runs s @
           [\<lparr>CronRun.ID = newID, JobID = jobID, JobUpdatedAt = CronJob.UpdatedAt job,
             Status = StatusQueued, ScheduledFor = scheduledFor, StartedAt = None,
             FinishedAt = None, Attempt = 1, Error = None,
             ResultSummary = None, CronRun.CreatedAt = stamp, CronRun.UpdatedAt = stamp\<rparr>] \<and>
         StatusQueued \<noteq> StatusSkipped \<and>
         First (snd (enqueueJobIfDue lower jobID now newID stamp s)) jobID =
           Some (if RunOnce job
                 then job\<lparr>CronJob.Enabled := False, LastRunAt := Some scheduledFor,
                          NextRunAt := None, CronJob.UpdatedAt := stamp\<rparr>
                 else job\<lparr>LastRunAt := Some scheduledFor, NextRunAt := Some nxt,
                          CronJob.UpdatedAt := stamp\<rparr>)"
proof -
  have sk: "False = (0 < length (filter (\<lambda>r. JobID r = jobID \<and> Status r = StatusRunning) (runs s)) \<and>
                 (lower (TrimSpace (OverlapPolicy job)) = [] \<or>
                  lower (TrimSpace (OverlapPolicy job)) = overlapForbid))"
    using assms(5,6) by simp
  note e = enqueue_due [where lower = lower and skip = False and newID = newID and stamp = stamp,
      OF assms(1-4) assms(7) sk]
  have "StatusQueued \<noteq> StatusSkipped" by (simp add: StatusSkipped_def StatusQueued_def)
  with e show ?thesis by simp
qed

theorem other_policy_queues_witness:
  "OverlapPolicy (dueJob ''replace'' False) = ''replace'' \<and>
   map Status (runs (busyStore ''replace'' False)) = [StatusRunning] \<and>
   fst (enqueueJobIfDue ToLowerASCII ''job-1'' 1770109205 ''run-2'' 1770109206
          (busyStore ''replace'' False)) = Inr True \<and>
   map Status (runs (snd (enqueueJobIfDue ToLowerASCII ''job-1'' 1770109205 ''run-2'' 1770109206
          (busyStore ''replace'' False)))) = [StatusRunning, StatusQueued] \<and>
   map_option NextRunAt (First (snd (enqueueJobIfDue ToLowerASCII ''job-1'' 1770109205 ''run-2''
          1770109206 (busyStore ''replace'' False))) ''job-1'') = Some (Some 1770109260)"
proof -
  have lw: "ToLowerASCII (TrimSpace ''replace'') = ''replace''" by code_simp
  have h3: "NextRunAt (dueJob ''replace'' False) = Some 1770109200"
    and h2: "CronJob.Enabled (dueJob ''replace'' False)"
    and h5: "ToLowerASCII (TrimSpace (OverlapPolicy (dueJob ''replace'' False))) \<noteq> []"
    and h6: "ToLowerASCII (TrimSpace (OverlapPolicy (dueJob ''replace'' False))) \<noteq> overlapForbid"
    and h7: "RunOnce (dueJob ''replace'' False) \<or>
             nextRunAt (dueJob ''replace'' False) 1770109200 = Inr 1770109260"
    and ro: "\<not> RunOnce (dueJob ''replace'' False)"
    by (simp_all add: nextRunAt_dueJob, simp_all add: dueJob_def intervalJob_def lw overlapForbid_def)
  have h4: "(1770109200 :: int) \<le> 1770109205" by simp
  from other_policy_queues [where lower = ToLowerASCII and newID = "''run-2''" and stamp = 1770109206,
      OF First_busyStore h2 h3 h4 h5 h6 h7] ro
  show ?thesis
    by (simp add: runs_busyStore dueJob_def)
qed

text \<open>
  C6. For an enabled, due job with \<open>run_once\<close>, the transaction that appends the job's
  new run also sets the job's \<open>enabled\<close> to false, \<open>next_run_at\<close> to null and
  \<open>last_run_at\<close> to the fire time. The new run has no start and no finish time; its
  status is \<open>queued\<close>, or \<open>skipped\<close> when a run of the job is running and the policy is
  \<open>forbid\<close>.
\<close>

theorem run_once_disables:
  assumes "First s jobID = Some job"
    and "CronJob.Enabled job"
    and "NextRunAt job = Some scheduledFor"
    and "scheduledFor \<le> now"
    and "RunOnce job"
    and "skip = (0 < length (filter (\<lambda>r. JobID r = jobID \<and> Status r = StatusRunning) (runs s)) \<and>
                 (lower (TrimSpace (OverlapPolicy job)) = [] \<or>
                  lower (TrimSpace (OverlapPolicy job)) = overlapForbid))"
  shows "First (snd (enqueueJobIfDue lower jobID now newID stamp s)) jobID =
           Some (job\<lparr>CronJob.Enabled := False, LastRunAt := Some scheduledFor,
                     NextRunAt := None, CronJob.UpdatedAt := stamp\<rparr>) \<and>
         runs (snd (enqueueJobIfDue lower jobID now newID stamp s)) =
           runs s @
           [\<lparr>CronRun.ID = newID, JobID = jobID, JobUpdatedAt = CronJob.UpdatedAt job,
             Status = (if skip then StatusSkipped else StatusQueued),
             ScheduledFor = scheduledFor, StartedAt = None, FinishedAt = None, Attempt = 1,
             Error = (if skip then Some ''overlap_forbid: prior run still running'' else None),
             ResultSummary = None, CronRun.CreatedAt = stamp, CronRun.UpdatedAt = stamp\<rparr>] \<and>
         fst (enqueueJobIfDue lower jobID now newID stamp s) = Inr (\<not> skip)"
proof -
  from assms(5) have upd: "RunOnce job \<or> nextRunAt job scheduledFor = Inr 0" by simp
  note e = enqueue_due [where lower = lower and skip = skip and newID = newID and stamp = stamp,
      OF assms(1-4) upd assms(6)]
  with assms(5) show ?thesis by simp
qed

theorem run_once_disables_witness:
  "First (idleStore ''forbid'' True) ''job-1'' = Some (dueJob ''forbid'' True) \<and>
   CronJob.Enabled (dueJob ''forbid'' True) \<and> RunOnce (dueJob ''forbid'' True) \<and>
   fst (enqueueJobIfDue ToLowerASCII ''job-1'' 1770109205 ''run-2'' 1770109206
          (idleStore ''forbid'' True)) = Inr True \<and>
   map Status (runs (snd (enqueueJobIfDue ToLowerASCII ''job-1'' 1770109205 ''run-2'' 1770109206
          (idleStore ''forbid'' True)))) = [StatusQueued] \<and>
   map_option CronJob.Enabled (First (snd (enqueueJobIfDue ToLowerASCII ''job-1'' 1770109205
          ''run-2'' 1770109206 (idleStore ''forbid'' True))) ''job-1'') = Some False \<and>
   map_option NextRunAt (First (snd (enqueueJobIfDue ToLowerASCII ''job-1'' 1770109205 ''run-2''
          1770109206 (idleStore ''forbid'' True))) ''job-1'') = Some None \<and>
   map_option LastRunAt (First (snd (enqueueJobIfDue ToLowerASCII ''job-1'' 1770109205 ''run-2''
          1770109206 (idleStore ''forbid'' True))) ''job-1'') = Some (Some 1770109200)"
proof -
  have f: "First (idleStore ''forbid'' True) ''job-1'' = Some (dueJob ''forbid'' True)"
    by (simp add: First_def idleStore_def dueJob_def intervalJob_def)
  have h3: "NextRunAt (dueJob ''forbid'' True) = Some 1770109200"
    and h2: "CronJob.Enabled (dueJob ''forbid'' True)"
    and h5: "RunOnce (dueJob ''forbid'' True)"
    by (simp_all add: dueJob_def intervalJob_def)
  have h4: "(1770109200 :: int) \<le> 1770109205" by simp
  have sk: "False = (0 < length (filter (\<lambda>r. JobID r = ''job-1'' \<and> Status r = StatusRunning)
                          (runs (idleStore ''forbid'' True))) \<and>
                 (ToLowerASCII (TrimSpace (OverlapPolicy (dueJob ''forbid'' True))) = [] \<or>
                  ToLowerASCII (TrimSpace (OverlapPolicy (dueJob ''forbid'' True))) = overlapForbid))"
    by (simp add: idleStore_def)
  from run_once_disables [where lower = ToLowerASCII and skip = False and newID = "''run-2''"
      and stamp = 1770109206, OF f h2 h3 h4 h5 sk] f h2 h5
  show ?thesis by (simp add: idleStore_def)
qed

section \<open>Properties of the worker\<close>

lemma truncateString_short: "int (length s) \<le> mx \<Longrightarrow> truncateString s mx = s"
  by (simp add: truncateString_def)

lemma truncateString_long:
  assumes "0 < mx" and "mx < int (length s)"
  shows "truncateString s mx = take (nat mx) s" and "int (length (truncateString s mx)) = mx"
proof -
  from assms show t: "truncateString s mx = take (nat mx) s" by (simp add: truncateString_def)
  from assms have "nat mx \<le> length s" by simp
  then have "length (take (nat mx) s) = nat mx" by simp
  with assms(1) t show "int (length (truncateString s mx)) = mx" by simp
qed

lemma truncateString_length:
  assumes "0 < mx"
  shows "int (length (truncateString s mx)) = min (int (length s)) mx"
proof (cases "int (length s) \<le> mx")
  case True
  then show ?thesis by (simp add: truncateString_short)
next
  case False
  with assms truncateString_long(2) [of mx s] show ?thesis by simp
qed


lemma finishRun_row:
  assumes "r \<in> set (runs (finishRun runID status errStr summ now stamp s))"
    and "CronRun.ID r = runID"
  shows "Status r = status \<and> FinishedAt r = Some now \<and> Error r = errStr \<and> ResultSummary r = summ"
proof -
  from assms(1) obtain r0 where r0: "r0 \<in> set (runs s)"
    and r: "r = (if CronRun.ID r0 = runID
                 then r0\<lparr>Status := status, FinishedAt := Some now, Error := errStr,
                         ResultSummary := summ, CronRun.UpdatedAt := stamp\<rparr>
                 else r0)"
    by (auto simp: finishRun_def)
  show ?thesis
  proof (cases "CronRun.ID r0 = runID")
    case True
    with r show ?thesis by simp
  next
    case False
    with r assms(2) show ?thesis by simp
  qed
qed

text \<open>
  A scheduler that \<open>New\<close> has built has positive limits, and under positive limits no
  stored error or summary is longer, in bytes, than its limit.
\<close>

lemma New_limits:
  assumes "New dm c = Inr sch"
  shows "0 < Concurrency (cfg sch) \<and> 0 < Tick (cfg sch) \<and> 0 < MaxErrorChars (cfg sch) \<and>
         0 < MaxSummaryChars (cfg sch)"
proof -
  define c1 where "c1 = (if Concurrency c \<le> 0 then c\<lparr>Concurrency := 1\<rparr> else c)"
  define c2 where "c2 = (if Tick c1 \<le> 0 then c1\<lparr>Tick := 1 * Second\<rparr> else c1)"
  define c3 where "c3 = (if MaxErrorChars c2 \<le> 0 then c2\<lparr>MaxErrorChars := 2000\<rparr> else c2)"
  define c4 where "c4 = (if MaxSummaryChars c3 \<le> 0 then c3\<lparr>MaxSummaryChars := 1000\<rparr> else c3)"
  from assms have sch: "cfg sch = c4"
    by (auto simp: New_def Let_def c1_def c2_def c3_def c4_def split: if_splits)
  have a: "0 < Concurrency c1" by (simp add: c1_def)
  have b: "0 < Tick c2" "Concurrency c2 = Concurrency c1" by (simp_all add: c2_def Second_def)
  have d: "0 < MaxErrorChars c3" "Concurrency c3 = Concurrency c2" "Tick c3 = Tick c2"
    by (simp_all add: c3_def)
  have e: "0 < MaxSummaryChars c4" "Concurrency c4 = Concurrency c3" "Tick c4 = Tick c3"
    "MaxErrorChars c4 = MaxErrorChars c3"
    by (simp_all add: c4_def)
  from a b d e show ?thesis by (simp add: sch)
qed

lemma truncateString_bound: "0 < mx \<Longrightarrow> int (length (truncateString s mx)) \<le> mx"
  by (simp add: truncateString_length)

lemma executeRun_stored_lengths:
  assumes "0 < MaxErrorChars (cfg sch)" and "0 < MaxSummaryChars (cfg sch)"
    and "r \<in> set (runs (executeRun durationString sch run out now stamp s))"
    and "CronRun.ID r = CronRun.ID run"
  shows "(\<forall>e. Error r = Some e \<longrightarrow> int (length e) \<le> MaxErrorChars (cfg sch)) \<and>
         (\<forall>t. ResultSummary r = Some t \<longrightarrow> int (length t) \<le> MaxSummaryChars (cfg sch))"
proof (cases "First s (JobID run)")
  case None
  then have "executeRun durationString sch run out now stamp s =
      finishRun (CronRun.ID run) StatusFailed
        (Some (truncateString ''record not found'' (MaxErrorChars (cfg sch)))) None now stamp s"
    by (simp add: executeRun_def)
  from finishRun_row [OF assms(3) [unfolded this] assms(4)]
  have "Error r = Some (truncateString ''record not found'' (MaxErrorChars (cfg sch)))"
    and "ResultSummary r = None" by simp_all
  with truncateString_bound [OF assms(1)] show ?thesis by auto
next
  case (Some job)
  define tmo where "tmo = (if TimeoutSeconds job \<noteq> None \<and> the (TimeoutSeconds job) > 0
                           then wrap64 (the (TimeoutSeconds job) * Second) else defaultTimeout)"
  define cls where "cls = classify durationString sch tmo out"
  define err where "err = (case snd cls of None \<Rightarrow> None
                           | Some text \<Rightarrow> Some (truncateString text (MaxErrorChars (cfg sch))))"
  define summ where "summ = (case summary out of None \<Rightarrow> None
              | Some text \<Rightarrow> Some (truncateString text (MaxSummaryChars (cfg sch))))"
  have ex: "executeRun durationString sch run out now stamp s =
            finishRun (CronRun.ID run) (fst cls) err summ now stamp s"
    unfolding executeRun_def cls_def tmo_def err_def summ_def
    using Some by (simp add: Let_def split_beta)
  from finishRun_row [OF assms(3) [unfolded ex] assms(4)]
  have row: "Error r = err" "ResultSummary r = summ" by simp_all
  have "int (length e) \<le> MaxErrorChars (cfg sch)" if "err = Some e" for e
    using that truncateString_bound [OF assms(1)]
    by (auto simp: err_def split: option.splits)
  moreover have "int (length t) \<le> MaxSummaryChars (cfg sch)" if "summ = Some t" for t
    using that truncateString_bound [OF assms(2)]
    by (auto simp: summ_def split: option.splits)
  ultimately show ?thesis by (simp add: row)
qed



text \<open>
  C9. \<open>truncateString\<close> counts and cuts bytes (\<open>truncateString_length\<close>,
  \<open>executeRun_stored_lengths\<close>), not characters. The summary \<open>twoAccented\<close> has two
  characters, which is under a maximum of three, yet it is stored cut to three bytes: one
  whole character and the first byte of the second.
\<close>

theorem truncateString_cuts_bytes:
  "characterCount twoAccented = 2 \<and> length twoAccented = 4 \<and>
   truncateString twoAccented 3 = [char_of (195 :: nat), char_of (169 :: nat), char_of (195 :: nat)] \<and>
   truncateString twoAccented 3 \<noteq> twoAccented \<and>
   map ResultSummary (runs (executeRun (\<lambda>d. ''10m0s'') (exampleScheduler True 3) runningRun
      (summaryOutcome twoAccented) 1770109300 1770109301 (busyStore ''forbid'' False)))
     = [Some [char_of (195 :: nat), char_of (169 :: nat), char_of (195 :: nat)]]"
proof -
  have job: "First (busyStore ''forbid'' False) (JobID runningRun) = Some (dueJob ''forbid'' False)"
    by (simp add: runningRun_def First_busyStore)
  have t: "truncateString twoAccented 3 = [char_of (195 :: nat), char_of (169 :: nat), char_of (195 :: nat)]"
    by (simp add: truncateString_def twoAccented_def)
  have n: "characterCount twoAccented = 2" "length twoAccented = 4"
    "[char_of (195 :: nat), char_of (169 :: nat), char_of (195 :: nat)] \<noteq> twoAccented"
    by (simp_all add: characterCount_def twoAccented_def)
  have mx: "MaxSummaryChars (cfg (exampleScheduler True 3)) = 3"
    by (simp add: exampleScheduler_def DefaultConfig_def)
  have "map ResultSummary (runs (executeRun (\<lambda>d. ''10m0s'') (exampleScheduler True 3) runningRun
      (summaryOutcome twoAccented) 1770109300 1770109301 (busyStore ''forbid'' False)))
     = [Some (truncateString twoAccented 3)]"
    unfolding executeRun_def job
    by (simp add: Let_def split_beta summaryOutcome_def mx finishRun_def busyStore_def
        runningRun_def)
  with t n show ?thesis by simp
qed

section \<open>Properties of the start-up\<close>

lemma runs_reconcileJob: "runs (reconcileJob now stamp s job) = runs s"
  by (simp add: reconcileJob_def runs_updateJob split: sum.splits)

lemma runs_foldl_reconcileJob: "runs (foldl (reconcileJob now stamp) s js) = runs s"
  by (induction js arbitrary: s) (simp_all add: runs_reconcileJob)

lemma runs_reconcileNextRunAt: "runs (reconcileNextRunAt now stamp s) = runs s"
  by (simp add: reconcileNextRunAt_def runs_foldl_reconcileJob)

lemma running_not_failed: "StatusFailed \<noteq> StatusRunning"
  by (simp add: StatusFailed_def StatusRunning_def)

text \<open>
  C5. \<open>recoverOrphanedRuns\<close> leaves the jobs and the number of runs as they are; a run
  that was \<open>running\<close> becomes \<open>failed\<close> with the error \<open>process restarted\<close> and the
  finish time that the function read from the clock (the storage layer also stamps the
  row), every other run is unchanged, and no run is \<open>running\<close> afterwards. An enabled
  scheduler's \<open>Start\<close> has done this before it starts its goroutines: the runs of the
  store that \<open>Start\<close> leaves are the recovered ones. A scheduler that is not enabled does
  nothing.
\<close>

theorem orphan_recovery:
  "jobs (recoverOrphanedRuns clock stamp s) = jobs s \<and>
   length (runs (recoverOrphanedRuns clock stamp s)) = length (runs s) \<and>
   (\<forall>i < length (runs s).
      (Status (runs s ! i) = StatusRunning \<longrightarrow>
         runs (recoverOrphanedRuns clock stamp s) ! i =
           (runs s ! i)\<lparr>Status := StatusFailed, FinishedAt := Some clock,
                         Error := Some ''process restarted'', CronRun.UpdatedAt := stamp\<rparr>) \<and>
      (Status (runs s ! i) \<noteq> StatusRunning \<longrightarrow>
         runs (recoverOrphanedRuns clock stamp s) ! i = runs s ! i)) \<and>
   (\<forall>r \<in> set (runs (recoverOrphanedRuns clock stamp s)). Status r \<noteq> StatusRunning) \<and>
   (Config.Enabled (cfg sch) \<longrightarrow>
      runs (fst (Start sch clock now stamp s)) = runs (recoverOrphanedRuns clock stamp s) \<and>
      snd (Start sch clock now stamp s) =
        scheduleLoop # map workerLoop [1 .. Concurrency (cfg sch)]) \<and>
   (\<not> Config.Enabled (cfg sch) \<longrightarrow> Start sch clock now stamp s = (s, []))"
proof (intro conjI allI impI ballI)
  show "jobs (recoverOrphanedRuns clock stamp s) = jobs s"
    by (simp add: recoverOrphanedRuns_def)
  show "length (runs (recoverOrphanedRuns clock stamp s)) = length (runs s)"
    by (simp add: recoverOrphanedRuns_def)
  show "runs (recoverOrphanedRuns clock stamp s) ! i =
           (runs s ! i)\<lparr>Status := StatusFailed, FinishedAt := Some clock,
                         Error := Some ''process restarted'', CronRun.UpdatedAt := stamp\<rparr>"
    if "i < length (runs s)" "Status (runs s ! i) = StatusRunning" for i
    using that by (simp add: recoverOrphanedRuns_def)
  show "runs (recoverOrphanedRuns clock stamp s) ! i = runs s ! i"
    if "i < length (runs s)" "Status (runs s ! i) \<noteq> StatusRunning" for i
    using that by (simp add: recoverOrphanedRuns_def)
  show "Status r \<noteq> StatusRunning" if "r \<in> set (runs (recoverOrphanedRuns clock stamp s))" for r
  proof -
    from that have "r \<in> (\<lambda>r. if Status r = StatusRunning
               then r\<lparr>Status := StatusFailed, FinishedAt := Some clock,
                       Error := Some ''process restarted'', CronRun.UpdatedAt := stamp\<rparr>
               else r) ` set (runs s)"
      by (simp add: recoverOrphanedRuns_def)
    then obtain r0 where
      r: "r = (if Status r0 = StatusRunning
               then r0\<lparr>Status := StatusFailed, FinishedAt := Some clock,
                       Error := Some ''process restarted'', CronRun.UpdatedAt := stamp\<rparr>
               else r0)"
      by (rule imageE)
    show ?thesis
    proof (cases "Status r0 = StatusRunning")
      case True
      with r show ?thesis by (simp add: running_not_failed)
    next
      case False
      with r show ?thesis by simp
    qed
  qed
  show "runs (fst (Start sch clock now stamp s)) = runs (recoverOrphanedRuns clock stamp s)"
    if "Config.Enabled (cfg sch)"
    using that by (simp add: Start_def Let_def runs_reconcileNextRunAt)
  show "snd (Start sch clock now stamp s) = scheduleLoop # map workerLoop [1 .. Concurrency (cfg sch)]"
    if "Config.Enabled (cfg sch)"
    using that by (simp add: Start_def Let_def)
  show "Start sch clock now stamp s = (s, [])" if "\<not> Config.Enabled (cfg sch)"
    using that by (simp add: Start_def)
qed

theorem orphan_recovery_witness:
  "map Status (runs crashedStore) = [StatusRunning, StatusQueued] \<and>
   map Status (runs (fst (Start (exampleScheduler True 1000) 1770109300 1770109301 1770109302
      crashedStore))) = [StatusFailed, StatusQueued] \<and>
   map Error (runs (fst (Start (exampleScheduler True 1000) 1770109300 1770109301 1770109302
      crashedStore))) = [Some ''process restarted'', None] \<and>
   map FinishedAt (runs (fst (Start (exampleScheduler True 1000) 1770109300 1770109301 1770109302
      crashedStore))) = [Some 1770109300, None] \<and>
   snd (Start (exampleScheduler True 1000) 1770109300 1770109301 1770109302 crashedStore) =
     [scheduleLoop, workerLoop 1]"
proof -
  have en: "Config.Enabled (cfg (exampleScheduler True 1000))"
    and cc: "Concurrency (cfg (exampleScheduler True 1000)) = 1"
    by (simp_all add: exampleScheduler_def DefaultConfig_def)
  have st: "Status runningRun = StatusRunning" "Status queuedRun \<noteq> StatusRunning"
    by (simp_all add: runningRun_def queuedRun_def StatusQueued_def StatusRunning_def)
  have qu: "Status queuedRun = StatusQueued" "Error queuedRun = None" "FinishedAt queuedRun = None"
    by (simp_all add: queuedRun_def)
  have rs: "runs crashedStore = [runningRun, queuedRun]" by (simp add: crashedStore_def)
  from orphan_recovery [where sch = "exampleScheduler True 1000" and clock = 1770109300
      and now = 1770109301 and stamp = 1770109302 and s = crashedStore] en
  have a: "runs (fst (Start (exampleScheduler True 1000) 1770109300 1770109301 1770109302
             crashedStore)) = runs (recoverOrphanedRuns 1770109300 1770109302 crashedStore)"
    and b: "snd (Start (exampleScheduler True 1000) 1770109300 1770109301 1770109302 crashedStore) =
             scheduleLoop # map workerLoop [1 .. Concurrency (cfg (exampleScheduler True 1000))]"
    by simp_all
  have c: "runs (recoverOrphanedRuns 1770109300 1770109302 crashedStore) =
      [runningRun\<lparr>Status := StatusFailed, FinishedAt := Some 1770109300,
                  Error := Some ''process restarted'', CronRun.UpdatedAt := 1770109302\<rparr>,
       queuedRun]"
    by (simp add: recoverOrphanedRuns_def rs st)
  from a b c show ?thesis by (simp add: rs st(1) qu cc)
qed

end
